theory Spec2Isabelle
  imports Complex_Main "HOL-Library.Word"
begin

section \<open>Errors\<close>

text \<open>
  \<open>ReturnFalse\<close> is the importer's own failure result (\<open>return false\<close>).
  \<open>AssertFailed\<close> is a failed \<open>assert\<close> (the model is the build with assertions on).
  \<open>LengthError\<close> and \<open>OutOfRangeException\<close> are the exceptions of
  \<open>std::vector::resize\<close> and \<open>std::vector::at\<close>. \<open>UndefinedBehaviour\<close> stands for a read
  through a raw pointer or an unchecked \<open>operator[]\<close> beyond the data, and for a
  conversion from \<open>float\<close> to \<open>size_t\<close> of a value \<open>size_t\<close> cannot hold.
  \<open>NotFinite\<close> is a \<open>float\<close> result that is not a finite number: an overflow (of an
  operation, or of a conversion from \<open>double\<close>, which is undefined then) or a division by
  zero. The code goes on with an infinity or a NaN there; the model has no such values
  and stops.
\<close>

datatype error =
  ReturnFalse | AssertFailed | LengthError | OutOfRangeException | UndefinedBehaviour | NotFinite

definition bindE :: "error + 'a \<Rightarrow> ('a \<Rightarrow> error + 'b) \<Rightarrow> error + 'b" where
  "bindE m f = (case m of Inl e \<Rightarrow> Inl e | Inr x \<Rightarrow> f x)"

primrec mapE :: "('a \<Rightarrow> error + 'b) \<Rightarrow> 'a list \<Rightarrow> error + 'b list" where
  "mapE f [] = Inr []"
| "mapE f (x # xs) = bindE (f x) (\<lambda>y. bindE (mapE f xs) (\<lambda>ys. Inr (y # ys)))"

section \<open>Numbers\<close>

text \<open>
  The importer computes with C++ \<open>float\<close> (IEEE-754 binary32) and \<open>size_t\<close>
  (64 bits). A finite \<open>float\<close> or \<open>double\<close> is a rational number, so both are
  carried by \<open>rat\<close>; every \<open>float\<close> operation, and every conversion to \<open>float\<close>, is
  the exact value rounded to the nearest binary32 value, ties to even, when that is a
  finite number, and the error \<open>NotFinite\<close> when it is not (\<open>f32\<close>). \<open>size_t\<close> is
  \<open>64 word\<close>.
\<close>

definition pow2 :: "int \<Rightarrow> rat" where
  "pow2 e = (if 0 \<le> e then 2 ^ nat e else 1 / 2 ^ nat (- e))"

text \<open>\<open>f32_exp n x\<close>: the largest exponent \<open>e\<close> with \<open>-126 < e \<le> n - 126\<close> and
  \<open>2 ^ e \<le> x\<close>, and \<open>-126\<close> (the exponent of the subnormal numbers) when there is none.\<close>

primrec f32_exp :: "nat \<Rightarrow> rat \<Rightarrow> int" where
  "f32_exp 0 x = - 126"
| "f32_exp (Suc n) x = (if pow2 (int n - 125) \<le> x then int n - 125 else f32_exp n x)"

definition round_half_even :: "rat \<Rightarrow> int" where
  "round_half_even y =
     (let f = \<lfloor>y\<rfloor>; d = y - of_int f
      in if d < 1 / 2 then f else if 1 / 2 < d then f + 1 else if even f then f else f + 1)"

text \<open>The nearest multiple of the unit in the last place of the binade of \<open>x\<close>, for an
  \<open>x\<close> below \<open>2 ^ 128\<close> in magnitude.\<close>

definition round_to_ulp :: "rat \<Rightarrow> rat" where
  "round_to_ulp x =
     (let ulp = pow2 (f32_exp 253 \<bar>x\<bar> - 23) in of_int (round_half_even (x / ulp)) * ulp)"

text \<open>The greatest \<open>float\<close> is \<open>2 ^ 128 - 2 ^ 104\<close>; a value half a unit in the last
  place above it, or beyond, rounds to an infinity.\<close>

definition f32 :: "rat \<Rightarrow> error + rat" where
  "f32 x = (if 2 ^ 128 - 2 ^ 103 \<le> \<bar>x\<bar> then Inl NotFinite else Inr (round_to_ulp x))"

definition fadd :: "rat \<Rightarrow> rat \<Rightarrow> error + rat" where
  "fadd a b = f32 (a + b)"

definition fsub :: "rat \<Rightarrow> rat \<Rightarrow> error + rat" where
  "fsub a b = f32 (a - b)"

definition fmul :: "rat \<Rightarrow> rat \<Rightarrow> error + rat" where
  "fmul a b = f32 (a * b)"

definition fdiv :: "rat \<Rightarrow> rat \<Rightarrow> error + rat" where
  "fdiv a b = (if b = 0 then Inl NotFinite else f32 (a / b))"

section \<open>Containers\<close>

text \<open>\<open>std::vector::max_size()\<close> is at most \<open>PTRDIFF_MAX\<close> on a 64-bit target, whatever
  the element type; \<open>resize\<close> beyond it throws \<open>std::length_error\<close>. Running out of memory
  below that bound is not modelled.\<close>

definition max_size :: nat where
  "max_size = 2 ^ 63 - 1"

definition resize :: "nat \<Rightarrow> 'a \<Rightarrow> 'a list \<Rightarrow> error + 'a list" where
  "resize n d xs =
     (if max_size < n then Inl LengthError else Inr (take n xs @ replicate (n - length xs) d))"

text \<open>\<open>v.at(i)\<close> taken as a reference: the index if it is in range, the exception otherwise.\<close>

definition at_ref :: "'a list \<Rightarrow> nat \<Rightarrow> error + nat" where
  "at_ref xs i = (if i < length xs then Inr i else Inl OutOfRangeException)"

text \<open>\<open>p[i]\<close> through a raw pointer or an unchecked \<open>operator[]\<close>.\<close>

definition read :: "'a list \<Rightarrow> nat \<Rightarrow> error + 'a" where
  "read xs i = (if i < length xs then Inr (xs ! i) else Inl UndefinedBehaviour)"

text \<open>The same with an \<open>int\<close> index, as the document's indices are.\<close>

definition read_int :: "'a list \<Rightarrow> int \<Rightarrow> error + 'a" where
  "read_int xs i = (if 0 \<le> i \<and> nat i < length xs then Inr (xs ! nat i) else Inl UndefinedBehaviour)"

section \<open>The document\<close>

type_synonym vec = "rat list"

text \<open>An accessor, with the bytes its buffer view resolves to (from the accessor's first
  byte to the end of the buffer) decoded as consecutive \<open>float\<close>s. \<open>count\<close> is the
  accessor's own field and need not agree with the data.\<close>

record accessor =
  count :: "64 word"
  componentType :: int
  acc_type :: int
  maxValues :: "rat list"
  floats :: "rat list"

text \<open>A node: \<open>translation\<close>, \<open>rotation\<close>, \<open>scale\<close> and \<open>matrix\<close> are the loader's arrays
  of \<open>double\<close>, empty when the document omits the property.\<close>

record node =
  name :: string
  translation :: "rat list"
  rotation :: "rat list"
  scale :: "rat list"
  matrix :: "rat list"
  children :: "int list"

record skin =
  joints :: "int list"
  skeleton :: int

record sampler =
  sampler_input :: int
  sampler_output :: int
  interpolation :: string

record channel =
  sampler :: int
  target_node :: int
  target_path :: string

record animation =
  anim_name :: string
  channels :: "channel list"
  samplers :: "sampler list"

record model =
  nodes :: "node list"
  accessors :: "accessor list"
  animations :: "animation list"

definition TINYGLTF_TYPE_VEC2 :: int where "TINYGLTF_TYPE_VEC2 = 2"
definition TINYGLTF_TYPE_VEC3 :: int where "TINYGLTF_TYPE_VEC3 = 3"
definition TINYGLTF_TYPE_VEC4 :: int where "TINYGLTF_TYPE_VEC4 = 4"
definition TINYGLTF_TYPE_MAT2 :: int where "TINYGLTF_TYPE_MAT2 = 32 + 2"
definition TINYGLTF_TYPE_MAT3 :: int where "TINYGLTF_TYPE_MAT3 = 32 + 3"
definition TINYGLTF_TYPE_MAT4 :: int where "TINYGLTF_TYPE_MAT4 = 32 + 4"
definition TINYGLTF_TYPE_SCALAR :: int where "TINYGLTF_TYPE_SCALAR = 64 + 1"

text \<open>Modelled from the spec: the two size tables of the document loader
  (\<open>extern/tiny_gltf.h\<close>, not among the sources) that \<open>BufferView\<close> multiplies: the
  component size in bytes of a glTF component type, and the cardinality of an accessor
  type; \<open>-1\<close> for an unknown code.\<close>

definition GetComponentSizeInBytes :: "int \<Rightarrow> int" where
  "GetComponentSizeInBytes ct =
     (if ct = 5120 then 1
      else if ct = 5121 then 1
      else if ct = 5122 then 2
      else if ct = 5123 then 2
      else if ct = 5124 then 4
      else if ct = 5125 then 4
      else if ct = 5126 then 4
      else if ct = 5130 then 8
      else - 1)"

definition GetTypeSizeInBytes :: "int \<Rightarrow> int" where
  "GetTypeSizeInBytes ty =
     (if ty = TINYGLTF_TYPE_SCALAR then 1
      else if ty = TINYGLTF_TYPE_VEC2 then 2
      else if ty = TINYGLTF_TYPE_VEC3 then 3
      else if ty = TINYGLTF_TYPE_VEC4 then 4
      else if ty = TINYGLTF_TYPE_MAT2 then 4
      else if ty = TINYGLTF_TYPE_MAT3 then 9
      else if ty = TINYGLTF_TYPE_MAT4 then 16
      else - 1)"

section \<open>Keyframes\<close>

record key =
  time :: rat
  val :: vec

text \<open>The value type of a keyframe container (\<open>Float3\<close> or \<open>Quaternion\<close>): its size in
  bytes, its number of \<open>float\<close> components, and the value a \<open>resize\<close> fills new keys
  with.\<close>

record value_type =
  sizeof :: int
  components :: nat
  filler :: vec

definition Float3 :: value_type where
  "Float3 = \<lparr>sizeof = 12, components = 3, filler = [0, 0, 0]\<rparr>"

definition Quaternion :: value_type where
  "Quaternion = \<lparr>sizeof = 16, components = 4, filler = [0, 0, 0, 0]\<rparr>"

definition new_key :: "value_type \<Rightarrow> key" where
  "new_key T = \<lparr>time = 0, val = filler T\<rparr>"

section \<open>BufferView\<close>

text \<open>\<open>BufferView<T>\<close> checks the element size and returns the data as an array of
  \<open>T\<close>; \<open>None\<close> is the null pointer. The instance at \<open>float\<close> is \<open>BufferView_float\<close>; at
  a value type of \<open>k\<close> components the array holds the consecutive groups of \<open>k\<close>
  \<open>float\<close>s.\<close>

definition element_size :: "accessor \<Rightarrow> int" where
  "element_size a =
     (let component_size = GetComponentSizeInBytes (componentType a)
      in component_size * GetTypeSizeInBytes (acc_type a))"

definition chunks :: "nat \<Rightarrow> 'a list \<Rightarrow> 'a list list" where
  "chunks k xs = map (\<lambda>i. take k (drop (i * k) xs)) [0..<length xs div k]"

definition BufferView_float :: "accessor \<Rightarrow> rat list option" where
  "BufferView_float a = (if element_size a \<noteq> 4 then None else Some (floats a))"

definition BufferView :: "value_type \<Rightarrow> accessor \<Rightarrow> vec list option" where
  "BufferView T a =
     (if element_size a \<noteq> sizeof T then None else Some (chunks (components T) (floats a)))"

section \<open>SampleLinearChannel\<close>

function linear_loop :: "64 word \<Rightarrow> rat list \<Rightarrow> vec list \<Rightarrow> 64 word \<Rightarrow> key list \<Rightarrow> error + key list" where
  "linear_loop n timestamps values i keyframes =
     (if i < n then
        (case bindE (at_ref keyframes (unat i)) (\<lambda>k.
              bindE (read timestamps (unat i)) (\<lambda>t.
              bindE (read values (unat i)) (\<lambda>v.
              Inr (keyframes[k := \<lparr>time = t, val = v\<rparr>]))))
         of Inl e \<Rightarrow> Inl e
          | Inr keyframes' \<Rightarrow> linear_loop n timestamps values (i + 1) keyframes')
      else Inr keyframes)"
  by pat_completeness auto
termination
proof (relation "measure (\<lambda>(n, timestamps, values, i, keyframes). unat n - unat i)")
  show "wf (measure (\<lambda>(n, timestamps, values, i, keyframes). unat n - unat i))"
    by simp
next
  fix n :: "64 word" and ts :: "rat list" and vs :: "vec list"
    and i :: "64 word" and keyframes x :: "key list"
  assume "i < n"
  then have "unat (i + 1) = unat i + 1"
    by (metis (no_types, lifting) add.commute add_0 inc_i inc_le
        unat_plus_simple unsigned_0 unsigned_1 word_gt_0)
  moreover from \<open>i < n\<close> have "unat i < unat n"
    by (simp add: word_less_nat_alt)
  ultimately
  show "((n, ts, vs, i + 1, x), (n, ts, vs, i, keyframes))
      \<in> measure (\<lambda>(n, timestamps, values, i, keyframes). unat n - unat i)"
    by simp
qed

definition SampleLinearChannel :: "value_type \<Rightarrow> accessor \<Rightarrow> rat list \<Rightarrow> key list \<Rightarrow> error + key list" where
  "SampleLinearChannel T output timestamps keyframes =
     (case BufferView T output of
        None \<Rightarrow> Inl ReturnFalse
      | Some values \<Rightarrow>
          bindE (resize (unat (count output)) (new_key T) keyframes)
            (linear_loop (count output) timestamps values 0))"

section \<open>SampleStepChannel\<close>

text \<open>The constant \<open>1e-6f\<close>.\<close>

definition eps :: rat where
  "eps = round_to_ulp (1 / 1000000)"

definition step_numKeyframes :: "64 word \<Rightarrow> 64 word" where
  "step_numKeyframes output_count = output_count * 2 - 1"

function step_loop :: "64 word \<Rightarrow> rat list \<Rightarrow> vec list \<Rightarrow> 64 word \<Rightarrow> key list \<Rightarrow> error + key list" where
  "step_loop n timestamps values i keyframes =
     (if i < n then
        (case bindE (at_ref keyframes (unat (i * 2))) (\<lambda>k.
              bindE (read timestamps (unat i)) (\<lambda>t.
              bindE (read values (unat i)) (\<lambda>v.
              let keyframes1 = keyframes[k := \<lparr>time = t, val = v\<rparr>]
              in if i < n - 1 then
                   bindE (at_ref keyframes1 (unat (i * 2 + 1))) (\<lambda>k1.
                   bindE (read timestamps (unat (i + 1))) (\<lambda>t1.
                   bindE (fsub t1 eps) (\<lambda>hold.
                   bindE (read values (unat i)) (\<lambda>v1.
                   Inr (keyframes1[k1 := \<lparr>time = hold, val = v1\<rparr>])))))
                 else Inr keyframes1)))
         of Inl e \<Rightarrow> Inl e
          | Inr keyframes' \<Rightarrow> step_loop n timestamps values (i + 1) keyframes')
      else Inr keyframes)"
  by pat_completeness auto
termination
proof (relation "measure (\<lambda>(n, timestamps, values, i, keyframes). unat n - unat i)")
  show "wf (measure (\<lambda>(n, timestamps, values, i, keyframes). unat n - unat i))"
    by simp
next
  fix n :: "64 word" and ts :: "rat list" and vs :: "vec list"
    and i :: "64 word" and keyframes x :: "key list"
  assume "i < n"
  then have "unat (i + 1) = unat i + 1"
    by (metis (no_types, lifting) add.commute add_0 inc_i inc_le
        unat_plus_simple unsigned_0 unsigned_1 word_gt_0)
  moreover from \<open>i < n\<close> have "unat i < unat n"
    by (simp add: word_less_nat_alt)
  ultimately
  show "((n, ts, vs, i + 1, x), (n, ts, vs, i, keyframes))
      \<in> measure (\<lambda>(n, timestamps, values, i, keyframes). unat n - unat i)"
    by simp
qed

definition SampleStepChannel :: "value_type \<Rightarrow> accessor \<Rightarrow> rat list \<Rightarrow> key list \<Rightarrow> error + key list" where
  "SampleStepChannel T output timestamps keyframes =
     (case BufferView T output of
        None \<Rightarrow> Inl ReturnFalse
      | Some values \<Rightarrow>
          bindE (resize (unat (step_numKeyframes (count output))) (new_key T) keyframes)
            (step_loop (count output) timestamps values 0))"

section \<open>SampleHermiteSpline and SampleCubicSplineChannel\<close>

text \<open>\<open>Float3\<close> and \<open>Quaternion\<close> are scaled by a \<open>float\<close> and added component by
  component.\<close>

definition vscale :: "vec \<Rightarrow> rat \<Rightarrow> error + vec" where
  "vscale v s = mapE (\<lambda>x. fmul x s) v"

definition vadd :: "vec \<Rightarrow> vec \<Rightarrow> error + vec" where
  "vadd u v = mapE (\<lambda>(x, y). fadd x y) (zip u v)"

definition SampleHermiteSpline :: "rat \<Rightarrow> vec \<Rightarrow> vec \<Rightarrow> vec \<Rightarrow> vec \<Rightarrow> error + vec" where
  "SampleHermiteSpline t p0 m0 p1 m1 =
     bindE (fmul t t) (\<lambda>t2.
     bindE (fmul t2 t) (\<lambda>t3.
     bindE (fmul 2 t3) (\<lambda>a1.
     bindE (fmul 3 t2) (\<lambda>a2.
     bindE (fsub a1 a2) (\<lambda>a3.
     bindE (fadd a3 1) (\<lambda>a.
     bindE (fmul 2 t2) (\<lambda>b1.
     bindE (fsub t3 b1) (\<lambda>b2.
     bindE (fadd b2 t) (\<lambda>b.
     bindE (fmul (- 2) t3) (\<lambda>c1.
     bindE (fmul 3 t2) (\<lambda>c2.
     bindE (fadd c1 c2) (\<lambda>c.
     bindE (fsub t3 t2) (\<lambda>d.
     bindE (vscale p0 a) (\<lambda>p0a.
     bindE (vscale m0 b) (\<lambda>m0b.
     bindE (vadd p0a m0b) (\<lambda>sum1.
     bindE (vscale p1 c) (\<lambda>p1c.
     bindE (vadd sum1 p1c) (\<lambda>sum2.
     bindE (vscale m1 d) (\<lambda>m1d.
     vadd sum2 m1d)))))))))))))))))))"

text \<open>\<open>static_cast<size_t>\<close> of a \<open>float\<close>: truncation, undefined when the truncated value
  does not fit.\<close>

definition float_to_size_t :: "rat \<Rightarrow> error + 64 word" where
  "float_to_size_t x =
     (if x \<le> - 1 \<or> 2 ^ 64 \<le> x then Inl UndefinedBehaviour
      else Inr (word_of_int (if x < 0 then 0 else \<lfloor>x\<rfloor>)))"

text \<open>The segment search:
  \<^verbatim>\<open>while (_timestamps[currentKey] > time && currentKey < numKeyframes - 1) currentKey++;\<close>\<close>

function cubic_scan :: "rat list \<Rightarrow> 64 word \<Rightarrow> rat \<Rightarrow> 64 word \<Rightarrow> error + 64 word" where
  "cubic_scan timestamps numKeyframes time' currentKey =
     (case read timestamps (unat currentKey) of
        Inl e \<Rightarrow> Inl e
      | Inr tk \<Rightarrow>
          if tk > time' \<and> currentKey < numKeyframes - 1
          then cubic_scan timestamps numKeyframes time' (currentKey + 1)
          else Inr currentKey)"
  by pat_completeness auto
termination
proof (relation "measure (\<lambda>(timestamps, numKeyframes, time', currentKey).
                    unat (numKeyframes - 1) - unat currentKey)")
  show "wf (measure (\<lambda>(timestamps, numKeyframes, time', currentKey).
                    unat (numKeyframes - 1) - unat currentKey))"
    by simp
next
  fix ts :: "rat list" and numKeyframes :: "64 word" and t :: rat and currentKey :: "64 word"
    and tk :: rat
  assume "tk > t \<and> currentKey < numKeyframes - 1"
  then have lt: "currentKey < numKeyframes - 1"
    by simp
  then have "unat (currentKey + 1) = unat currentKey + 1"
    by (metis (no_types, lifting) add.commute add_0 inc_i inc_le
        unat_plus_simple unsigned_0 unsigned_1 word_gt_0)
  moreover from lt have "unat currentKey < unat (numKeyframes - 1)"
    by (simp add: word_less_nat_alt)
  ultimately
  show "((ts, numKeyframes, t, currentKey + 1), (ts, numKeyframes, t, currentKey))
      \<in> measure (\<lambda>(timestamps, numKeyframes, time', currentKey).
                    unat (numKeyframes - 1) - unat currentKey)"
    by simp
qed

text \<open>The interpolation parameter \<open>t\<close> of the loop body.\<close>

definition cubic_t :: "rat \<Rightarrow> rat \<Rightarrow> rat \<Rightarrow> error + rat" where
  "cubic_t time' currentTime nextTime =
     bindE (fsub time' currentTime) (\<lambda>elapsed.
     bindE (fsub nextTime currentTime) (\<lambda>span.
     fdiv elapsed span))"

text \<open>One turn of the loop over the output keys: the new keys and the new \<open>currentKey\<close>.\<close>

definition cubic_body ::
  "rat \<Rightarrow> 64 word \<Rightarrow> rat list \<Rightarrow> vec list \<Rightarrow> 64 word \<Rightarrow> key list \<Rightarrow> 64 word
    \<Rightarrow> error + key list \<times> 64 word" where
  "cubic_body sampling_rate numKeyframes timestamps values i keyframes currentKey0 =
     bindE (f32 (of_nat (unat i))) (\<lambda>float_i.
     bindE (fdiv float_i sampling_rate) (\<lambda>time'.
     bindE (cubic_scan timestamps numKeyframes time' currentKey0) (\<lambda>currentKey.
     bindE (read timestamps (unat currentKey)) (\<lambda>currentTime.
     bindE (read timestamps (unat (currentKey + 1))) (\<lambda>nextTime.
     bindE (cubic_t time' currentTime nextTime) (\<lambda>t.
     bindE (read values (unat (currentKey * 3 + 1))) (\<lambda>p0.
     bindE (read values (unat (currentKey * 3 + 2))) (\<lambda>out_tangent.
     bindE (fsub nextTime currentTime) (\<lambda>span.
     bindE (vscale out_tangent span) (\<lambda>m0.
     bindE (read values (unat ((currentKey + 1) * 3 + 1))) (\<lambda>p1.
     bindE (read values (unat ((currentKey + 1) * 3))) (\<lambda>in_tangent.
     bindE (vscale in_tangent span) (\<lambda>m1.
     bindE (at_ref keyframes (unat i)) (\<lambda>k.
     bindE (SampleHermiteSpline t p0 m0 p1 m1) (\<lambda>pt.
     Inr (keyframes[k := \<lparr>time = time', val = pt\<rparr>], currentKey))))))))))))))))"

function cubic_loop ::
  "rat \<Rightarrow> 64 word \<Rightarrow> rat list \<Rightarrow> vec list \<Rightarrow> 64 word \<Rightarrow> key list \<Rightarrow> 64 word
    \<Rightarrow> error + key list" where
  "cubic_loop sampling_rate numKeyframes timestamps values i keyframes currentKey =
     (if i < word_of_nat (length keyframes) then
        (case cubic_body sampling_rate numKeyframes timestamps values i keyframes currentKey of
           Inl e \<Rightarrow> Inl e
         | Inr (keyframes', currentKey') \<Rightarrow>
             cubic_loop sampling_rate numKeyframes timestamps values (i + 1) keyframes' currentKey')
      else Inr keyframes)"
  by pat_completeness auto
termination
proof (relation "measure (\<lambda>(sampling_rate, numKeyframes, timestamps, values, i, keyframes, currentKey).
                    unat (word_of_nat (length keyframes) :: 64 word) - unat i)")
  show "wf (measure (\<lambda>(sampling_rate, numKeyframes, timestamps, values, i, keyframes, currentKey).
                    unat (word_of_nat (length keyframes) :: 64 word) - unat i))"
    by simp
next
  fix r :: rat and numKeyframes :: "64 word" and ts :: "rat list" and vs :: "vec list"
    and i :: "64 word" and keyframes :: "key list" and currentKey :: "64 word"
    and x :: "key list \<times> 64 word" and keyframes' :: "key list" and currentKey' :: "64 word"
  assume lt: "i < word_of_nat (length keyframes)"
    and body: "cubic_body r numKeyframes ts vs i keyframes currentKey = Inr x"
    and x: "(keyframes', currentKey') = x"
  have bindE_Inr: "\<exists>y. m = Inr y \<and> f y = Inr z" if "bindE m f = Inr z"
    for m :: "error + 'x" and f :: "'x \<Rightarrow> error + 'y" and z
    using that by (simp add: bindE_def split: sum.splits)
  from body x have "cubic_body r numKeyframes ts vs i keyframes currentKey
      = Inr (keyframes', currentKey')"
    by simp
  then have "length keyframes' = length keyframes"
    unfolding cubic_body_def Let_def
    apply -
    apply (drule bindE_Inr, clarify)+
    apply simp
    done
  moreover from lt have "unat (i + 1) = unat i + 1"
    by (metis (no_types, lifting) add.commute add_0 inc_i inc_le
        unat_plus_simple unsigned_0 unsigned_1 word_gt_0)
  moreover from lt have "unat i < unat (word_of_nat (length keyframes) :: 64 word)"
    by (simp add: word_less_nat_alt)
  ultimately
  show "((r, numKeyframes, ts, vs, i + 1, keyframes', currentKey'),
         (r, numKeyframes, ts, vs, i, keyframes, currentKey))
      \<in> measure (\<lambda>(sampling_rate, numKeyframes, timestamps, values, i, keyframes, currentKey).
                    unat (word_of_nat (length keyframes) :: 64 word) - unat i)"
    by simp
qed

definition SampleCubicSplineChannel ::
  "value_type \<Rightarrow> accessor \<Rightarrow> rat list \<Rightarrow> key list \<Rightarrow> rat \<Rightarrow> rat \<Rightarrow> error + key list" where
  "SampleCubicSplineChannel T output timestamps keyframes sampling_rate duration =
     (case BufferView T output of
        None \<Rightarrow> Inl ReturnFalse
      | Some values \<Rightarrow>
          if count output mod 3 \<noteq> 0 then Inl AssertFailed
          else
            let numKeyframes = count output div 3
            in bindE (fmul duration sampling_rate) (\<lambda>samples.
               bindE (fadd (of_int \<lfloor>samples\<rfloor>) 1) (\<lambda>size.
               bindE (float_to_size_t size) (\<lambda>n.
               bindE (resize (unat n) (new_key T) keyframes) (\<lambda>keyframes'.
               cubic_loop sampling_rate numKeyframes timestamps values 0 keyframes' 0)))))"

section \<open>Bind pose keys and node transforms\<close>

definition CreateTranslationBindPoseKey :: "node \<Rightarrow> error + key" where
  "CreateTranslationBindPoseKey n =
     (if translation n = [] then Inr \<lparr>time = 0, val = [0, 0, 0]\<rparr>
      else bindE (read (translation n) 0) (\<lambda>x.
           bindE (read (translation n) 1) (\<lambda>y.
           bindE (read (translation n) 2) (\<lambda>z.
           bindE (mapE f32 [x, y, z]) (\<lambda>v.
           Inr \<lparr>time = 0, val = v\<rparr>)))))"

definition CreateRotationBindPoseKey :: "node \<Rightarrow> error + key" where
  "CreateRotationBindPoseKey n =
     (if rotation n = [] then Inr \<lparr>time = 0, val = [0, 0, 0, 1]\<rparr>
      else bindE (read (rotation n) 0) (\<lambda>x.
           bindE (read (rotation n) 1) (\<lambda>y.
           bindE (read (rotation n) 2) (\<lambda>z.
           bindE (read (rotation n) 3) (\<lambda>w.
           bindE (mapE f32 [x, y, z, w]) (\<lambda>v.
           Inr \<lparr>time = 0, val = v\<rparr>))))))"

definition CreateScaleBindPoseKey :: "node \<Rightarrow> error + key" where
  "CreateScaleBindPoseKey n =
     (if scale n = [] then Inr \<lparr>time = 0, val = [1, 1, 1]\<rparr>
      else bindE (read (scale n) 0) (\<lambda>x.
           bindE (read (scale n) 1) (\<lambda>y.
           bindE (read (scale n) 2) (\<lambda>z.
           bindE (mapE f32 [x, y, z]) (\<lambda>v.
           Inr \<lparr>time = 0, val = v\<rparr>)))))"

record transform =
  tr_translation :: vec
  tr_rotation :: vec
  tr_scale :: vec

definition identity :: transform where
  "identity = \<lparr>tr_translation = [0, 0, 0], tr_rotation = [0, 0, 0, 1], tr_scale = [1, 1, 1]\<rparr>"

definition CreateNodeTransform :: "node \<Rightarrow> error + transform" where
  "CreateNodeTransform n =
     (if length (matrix n) \<noteq> 0 then Inl ReturnFalse
      else
        bindE (if translation n \<noteq> []
               then bindE (read (translation n) 0) (\<lambda>x.
                    bindE (read (translation n) 1) (\<lambda>y.
                    bindE (read (translation n) 2) (\<lambda>z.
                    bindE (mapE f32 [x, y, z]) (\<lambda>v.
                    Inr (identity\<lparr>tr_translation := v\<rparr>)))))
               else Inr identity) (\<lambda>tr1.
        bindE (if rotation n \<noteq> []
               then bindE (read (rotation n) 0) (\<lambda>x.
                    bindE (read (rotation n) 1) (\<lambda>y.
                    bindE (read (rotation n) 2) (\<lambda>z.
                    bindE (read (rotation n) 3) (\<lambda>w.
                    bindE (mapE f32 [x, y, z, w]) (\<lambda>v.
                    Inr (tr1\<lparr>tr_rotation := v\<rparr>))))))
               else Inr tr1) (\<lambda>tr2.
        if scale n \<noteq> []
        then bindE (read (scale n) 0) (\<lambda>x.
             bindE (read (scale n) 1) (\<lambda>y.
             bindE (read (scale n) 2) (\<lambda>z.
             bindE (mapE f32 [x, y, z]) (\<lambda>v.
             Inr (tr2\<lparr>tr_scale := v\<rparr>)))))
        else Inr tr2)))"

section \<open>FindSkinRootJointIndex\<close>

text \<open>The map \<open>parents\<close>, filled joint by joint and child by child; a later entry for the
  same child replaces an earlier one.\<close>

fun build_parents :: "node list \<Rightarrow> int list \<Rightarrow> (int \<rightharpoonup> int) \<Rightarrow> error + (int \<rightharpoonup> int)" where
  "build_parents ns [] parents = Inr parents"
| "build_parents ns (n # rest) parents =
     (case read_int ns n of
        Inl e \<Rightarrow> Inl e
      | Inr nd \<Rightarrow> build_parents ns rest (fold (\<lambda>child ps. ps(child \<mapsto> n)) (children nd) parents))"

text \<open>\<^verbatim>\<open>while (parents.find(root) != parents.end()) root = parents[root];\<close>
  The loop need not end: \<open>None\<close> is a walk that goes on for ever.\<close>

partial_function (option) walk_parents :: "(int \<rightharpoonup> int) \<Rightarrow> int \<Rightarrow> int option" where
  "walk_parents parents root' =
     (case parents root' of None \<Rightarrow> Some root' | Some p \<Rightarrow> walk_parents parents p)"

definition FindSkinRootJointIndex :: "node list \<Rightarrow> skin \<Rightarrow> (error + int) option" where
  "FindSkinRootJointIndex ns sk =
     (if joints sk = [] then Some (Inr (- 1))
      else if skeleton sk \<noteq> - 1 then Some (Inr (skeleton sk))
      else
        case build_parents ns (joints sk) Map.empty of
          Inl e \<Rightarrow> Some (Inl e)
        | Inr parents \<Rightarrow> map_option Inr (walk_parents parents (joints sk ! 0)))"

section \<open>ImportNode\<close>

datatype joint = Joint (joint_name: string) (joint_transform: transform) (joint_children: "joint list")

text \<open>\<open>ImportNode\<close> and its loop over the children call each other; \<open>ImportNodes ns cs\<close> is
  that loop, importing the nodes of indices \<open>cs\<close> in order (for each: the name, the
  transform, then its own children), and \<open>ImportNode\<close> is the loop over one node. The
  recursion need not end: \<open>None\<close> is a call that never returns.\<close>

partial_function (option) ImportNodes :: "node list \<Rightarrow> int list \<Rightarrow> (error + joint list) option" where
  "ImportNodes ns cs =
     (case cs of
        [] \<Rightarrow> Some (Inr [])
      | c # rest \<Rightarrow>
          (case read_int ns c of
             Inl e \<Rightarrow> Some (Inl e)
           | Inr child_node \<Rightarrow>
               (case CreateNodeTransform child_node of
                  Inl e \<Rightarrow> Some (Inl e)
                | Inr tr \<Rightarrow>
                    Option.bind (ImportNodes ns (children child_node)) (\<lambda>r.
                      case r of
                        Inl e \<Rightarrow> Some (Inl e)
                      | Inr js \<Rightarrow>
                          Option.bind (ImportNodes ns rest) (\<lambda>r'.
                            case r' of
                              Inl e \<Rightarrow> Some (Inl e)
                            | Inr siblings \<Rightarrow>
                                Some (Inr (Joint (name child_node) tr js # siblings)))))))"

definition ImportNode :: "node list \<Rightarrow> int \<Rightarrow> (error + joint) option" where
  "ImportNode ns root' =
     map_option (\<lambda>r. case r of Inl e \<Rightarrow> Inl e | Inr js \<Rightarrow> Inr (hd js)) (ImportNodes ns [root'])"

section \<open>Animation import\<close>

text \<open>The three tracks of a joint (\<open>translations\<close>, \<open>rotations\<close> and \<open>scales\<close> in
  the source).\<close>

record JointTrack =
  translation_keys :: "key list"
  rotation_keys :: "key list"
  scale_keys :: "key list"

record RawAnimation =
  raw_name :: string
  duration :: rat
  tracks :: "JointTrack list"

definition empty_track :: JointTrack where
  "empty_track = \<lparr>translation_keys = [], rotation_keys = [], scale_keys = []\<rparr>"

text \<open>The outcome of a sampler, stored into the track it was given: the status (\<open>None\<close>
  for \<open>true\<close>), the duration accumulator and the track. After \<open>ReturnFalse\<close> they are
  what the caller's variables hold; after the other errors nobody reads them.\<close>

definition sampled ::
  "error + key list \<Rightarrow> rat \<Rightarrow> JointTrack \<Rightarrow> (key list \<Rightarrow> JointTrack) \<Rightarrow> error option \<times> rat \<times> JointTrack" where
  "sampled r d track store = (case r of Inl e \<Rightarrow> (Some e, d, track) | Inr ks \<Rightarrow> (None, d, store ks))"

text \<open>\<open>Normalize\<close> is the quaternion normalisation of the maths library, not among the
  sources: a parameter.\<close>

definition SampleAnimationChannel ::
  "(vec \<Rightarrow> vec) \<Rightarrow> model \<Rightarrow> sampler \<Rightarrow> string \<Rightarrow> rat \<Rightarrow> rat \<Rightarrow> JointTrack
    \<Rightarrow> error option \<times> rat \<times> JointTrack" where
  "SampleAnimationChannel Normalize m s path sampling_rate duration0 track =
     (case read_int (accessors m) (sampler_input s) of
        Inl e \<Rightarrow> (Some e, duration0, track)
      | Inr inp \<Rightarrow>
        if length (maxValues inp) \<noteq> 1 then (Some AssertFailed, duration0, track)
        else
          case f32 (maxValues inp ! 0) of
            Inl e \<Rightarrow> (Some e, duration0, track)
          | Inr d \<Rightarrow>
          let duration1 = (if d > duration0 then d else duration0)
          in
          if acc_type inp \<noteq> TINYGLTF_TYPE_SCALAR then (Some AssertFailed, duration1, track)
          else
            case read_int (accessors m) (sampler_output s) of
              Inl e \<Rightarrow> (Some e, duration1, track)
            | Inr out \<Rightarrow>
              if \<not> (acc_type out = TINYGLTF_TYPE_VEC3 \<or> acc_type out = TINYGLTF_TYPE_VEC4)
              then (Some AssertFailed, duration1, track)
              else
                case BufferView_float inp of
                  None \<Rightarrow> (Some ReturnFalse, duration1, track)
                | Some timestamps \<Rightarrow>
                  if interpolation s = [] then (Some ReturnFalse, duration1, track)
                  else if interpolation s = ''LINEAR'' then
                    if count inp \<noteq> count out then (Some AssertFailed, duration1, track)
                    else if path = ''translation'' then
                      sampled (SampleLinearChannel Float3 out timestamps (translation_keys track))
                        duration1 track (\<lambda>ks. track\<lparr>translation_keys := ks\<rparr>)
                    else if path = ''rotation'' then
                      sampled (SampleLinearChannel Quaternion out timestamps (rotation_keys track))
                        duration1 track (\<lambda>ks. track\<lparr>rotation_keys := ks\<rparr>)
                    else if path = ''scale'' then
                      sampled (SampleLinearChannel Float3 out timestamps (scale_keys track))
                        duration1 track (\<lambda>ks. track\<lparr>scale_keys := ks\<rparr>)
                    else (Some ReturnFalse, duration1, track)
                  else if interpolation s = ''STEP'' then
                    if count inp \<noteq> count out then (Some AssertFailed, duration1, track)
                    else if path = ''translation'' then
                      sampled (SampleStepChannel Float3 out timestamps (translation_keys track))
                        duration1 track (\<lambda>ks. track\<lparr>translation_keys := ks\<rparr>)
                    else if path = ''rotation'' then
                      sampled (SampleStepChannel Quaternion out timestamps (rotation_keys track))
                        duration1 track (\<lambda>ks. track\<lparr>rotation_keys := ks\<rparr>)
                    else if path = ''scale'' then
                      sampled (SampleStepChannel Float3 out timestamps (scale_keys track))
                        duration1 track (\<lambda>ks. track\<lparr>scale_keys := ks\<rparr>)
                    else (Some ReturnFalse, duration1, track)
                  else if interpolation s = ''CUBICSPLINE'' then
                    if count inp * 3 \<noteq> count out then (Some AssertFailed, duration1, track)
                    else if path = ''translation'' then
                      sampled (SampleCubicSplineChannel Float3 out timestamps (translation_keys track)
                                 sampling_rate d)
                        duration1 track (\<lambda>ks. track\<lparr>translation_keys := ks\<rparr>)
                    else if path = ''rotation'' then
                      sampled (SampleCubicSplineChannel Quaternion out timestamps (rotation_keys track)
                                 sampling_rate d)
                        duration1 track
                        (\<lambda>ks. track\<lparr>rotation_keys := map (\<lambda>k. k\<lparr>val := Normalize (val k)\<rparr>) ks\<rparr>)
                    else if path = ''scale'' then
                      sampled (SampleCubicSplineChannel Float3 out timestamps (scale_keys track)
                                 sampling_rate d)
                        duration1 track (\<lambda>ks. track\<lparr>scale_keys := ks\<rparr>)
                    else (Some ReturnFalse, duration1, track)
                  else (Some ReturnFalse, duration1, track))"

definition FindNodeByName :: "node list \<Rightarrow> string \<Rightarrow> node option" where
  "FindNodeByName ns n = find (\<lambda>nd. name nd = n) ns"

text \<open>The map \<open>channels_per_joint\<close>, from a node name to the channels that target a node
  of that name, in the animation's order. A channel without a target node is passed over.\<close>

fun channels_per_joint ::
  "node list \<Rightarrow> channel list \<Rightarrow> (string \<Rightarrow> channel list) \<Rightarrow> error + (string \<Rightarrow> channel list)" where
  "channels_per_joint ns [] cpj = Inr cpj"
| "channels_per_joint ns (c # cs) cpj =
     (if target_node c = - 1 then channels_per_joint ns cs cpj
      else
        case read_int ns (target_node c) of
          Inl e \<Rightarrow> Inl e
        | Inr target \<Rightarrow> channels_per_joint ns cs (cpj(name target := cpj (name target) @ [c])))"

text \<open>The loop over the channels of one joint.\<close>

fun channels_loop ::
  "(vec \<Rightarrow> vec) \<Rightarrow> model \<Rightarrow> animation \<Rightarrow> rat \<Rightarrow> channel list \<Rightarrow> rat \<Rightarrow> JointTrack
    \<Rightarrow> error + rat \<times> JointTrack" where
  "channels_loop Normalize m a sampling_rate [] d track = Inr (d, track)"
| "channels_loop Normalize m a sampling_rate (c # cs) d track =
     (case read_int (samplers a) (sampler c) of
        Inl e \<Rightarrow> Inl e
      | Inr s \<Rightarrow>
          (case SampleAnimationChannel Normalize m s (target_path c) sampling_rate d track of
             (Some e, d', track') \<Rightarrow> Inl e
           | (None, d', track') \<Rightarrow> channels_loop Normalize m a sampling_rate cs d' track'))"

text \<open>The padding of the tracks left empty with the bind pose of the node.\<close>

definition pad_track :: "node \<Rightarrow> JointTrack \<Rightarrow> error + JointTrack" where
  "pad_track nd track =
     bindE (if translation_keys track = []
            then bindE (CreateTranslationBindPoseKey nd) (\<lambda>k. Inr (track\<lparr>translation_keys := [k]\<rparr>))
            else Inr track) (\<lambda>track1.
     bindE (if rotation_keys track1 = []
            then bindE (CreateRotationBindPoseKey nd) (\<lambda>k. Inr (track1\<lparr>rotation_keys := [k]\<rparr>))
            else Inr track1) (\<lambda>track2.
     if scale_keys track2 = []
     then bindE (CreateScaleBindPoseKey nd) (\<lambda>k. Inr (track2\<lparr>scale_keys := [k]\<rparr>))
     else Inr track2))"

text \<open>The loop over the joints of the skeleton, from joint \<open>i\<close> on.\<close>

fun joints_loop ::
  "(vec \<Rightarrow> vec) \<Rightarrow> model \<Rightarrow> animation \<Rightarrow> rat \<Rightarrow> (string \<Rightarrow> channel list) \<Rightarrow> string list \<Rightarrow> nat
    \<Rightarrow> rat \<Rightarrow> JointTrack list \<Rightarrow> error + rat \<times> JointTrack list" where
  "joints_loop Normalize m a sampling_rate cpj [] i d trs = Inr (d, trs)"
| "joints_loop Normalize m a sampling_rate cpj (jn # jns) i d trs =
     (case read trs i of
        Inl e \<Rightarrow> Inl e
      | Inr track \<Rightarrow>
          (case channels_loop Normalize m a sampling_rate (cpj jn) d track of
             Inl e \<Rightarrow> Inl e
           | Inr (d', track') \<Rightarrow>
               (case FindNodeByName (nodes m) jn of
                  None \<Rightarrow> Inl AssertFailed
                | Some nd \<Rightarrow>
                    (case pad_track nd track' of
                       Inl e \<Rightarrow> Inl e
                     | Inr track'' \<Rightarrow>
                         joints_loop Normalize m a sampling_rate cpj jns (i + 1) d'
                           (trs[i := track''])))))"

text \<open>\<open>Import\<close> of an animation. \<open>Validate\<close> is \<open>RawAnimation::Validate\<close>, not among the
  sources: a parameter. \<open>joint_names\<close> are the names of the skeleton's joints, and
  \<open>animation0\<close> is the \<open>RawAnimation\<close> the caller hands over. The result is the animation
  on \<open>true\<close>; on \<open>false\<close> and on the other errors no animation is returned. Logging is
  not modelled.\<close>

definition Import ::
  "(RawAnimation \<Rightarrow> bool) \<Rightarrow> (vec \<Rightarrow> vec) \<Rightarrow> model \<Rightarrow> string \<Rightarrow> string list \<Rightarrow> rat
    \<Rightarrow> RawAnimation \<Rightarrow> error + RawAnimation" where
  "Import Validate Normalize m animation_name joint_names sampling_rate0 animation0 =
     (let sampling_rate = (if sampling_rate0 = 0 then 30 else sampling_rate0)
      in case find (\<lambda>a. anim_name a = animation_name) (animations m) of
           None \<Rightarrow> Inl AssertFailed
         | Some gltf_animation \<Rightarrow>
             bindE (resize (length joint_names) empty_track (tracks animation0)) (\<lambda>trs.
             bindE (channels_per_joint (nodes m) (channels gltf_animation) (\<lambda>n. [])) (\<lambda>cpj.
             bindE (joints_loop Normalize m gltf_animation sampling_rate cpj joint_names 0 0 trs)
               (\<lambda>(d, trs').
                 let result = \<lparr>raw_name = anim_name gltf_animation, duration = d, tracks = trs'\<rparr>
                 in if \<not> Validate result then Inl ReturnFalse else Inr result))))"

section \<open>Trees of joints and graphs without cycles\<close>

text \<open>The joints of a skin as a tree, as the spec words it: \<open>reach ns J r j\<close> is a chain
  of child links from \<open>r\<close> to \<open>j\<close> inside the joints \<open>J\<close>; in a \<open>skin_tree\<close> the
  joints are nodes of the document, \<open>r\<close> is a joint that is the child of no joint, every
  joint is reached from \<open>r\<close> (so every other joint has a parent among the joints), and no
  joint is the child of two joints.\<close>

inductive reach :: "node list \<Rightarrow> int set \<Rightarrow> int \<Rightarrow> int \<Rightarrow> bool" for ns J r where
  reach_root: "reach ns J r r"
| reach_child: "reach ns J r p \<Longrightarrow> p \<in> J \<Longrightarrow> c \<in> J \<Longrightarrow> c \<in> set (children (ns ! nat p))
     \<Longrightarrow> reach ns J r c"

definition skin_tree :: "node list \<Rightarrow> int set \<Rightarrow> int \<Rightarrow> bool" where
  "skin_tree ns J r =
     (r \<in> J
      \<and> (\<forall>j\<in>J. 0 \<le> j \<and> nat j < length ns)
      \<and> (\<forall>p\<in>J. r \<notin> set (children (ns ! nat p)))
      \<and> (\<forall>j\<in>J. reach ns J r j)
      \<and> (\<forall>c\<in>J. \<forall>p\<in>J. \<forall>q\<in>J. c \<in> set (children (ns ! nat p))
            \<longrightarrow> c \<in> set (children (ns ! nat q)) \<longrightarrow> p = q))"

code_pred reach .

text \<open>A node graph without a cycle below the nodes \<open>S\<close>: the children of a node of \<open>S\<close>
  are in \<open>S\<close>, and \<open>rank\<close> falls along every child link.\<close>

definition acyclic_below :: "node list \<Rightarrow> int set \<Rightarrow> (int \<Rightarrow> nat) \<Rightarrow> bool" where
  "acyclic_below ns S rank =
     (\<forall>n\<in>S. 0 \<le> n \<longrightarrow> nat n < length ns
        \<longrightarrow> (\<forall>c\<in>set (children (ns ! nat n)). c \<in> S \<and> rank c < rank n))"

section \<open>Expected keys and example documents\<close>

text \<open>The two keys the step sampler writes for sample \<open>j\<close>: the sample itself, and
  the hold just before the next sample.\<close>

definition step_key :: "rat list \<Rightarrow> vec list \<Rightarrow> nat \<Rightarrow> key" where
  "step_key ts vs j = \<lparr>time = ts ! j, val = vs ! j\<rparr>"

definition hold_key :: "rat list \<Rightarrow> vec list \<Rightarrow> nat \<Rightarrow> key" where
  "hold_key ts vs j = \<lparr>time = round_to_ulp (ts ! (j + 1) - eps), val = vs ! j\<rparr>"

text \<open>An accessor of \<open>n\<close> elements of three \<open>float\<close>s over the data \<open>xs\<close>.\<close>

definition vec3_accessor :: "64 word \<Rightarrow> rat list \<Rightarrow> accessor" where
  "vec3_accessor n xs =
     \<lparr>count = n, componentType = 5126, acc_type = TINYGLTF_TYPE_VEC3, maxValues = [], floats = xs\<rparr>"

text \<open>The declared maximum of the input accessor of a sampler, as the dispatcher reads
  it, and of the sampler of a channel.\<close>

definition declared_max :: "model \<Rightarrow> sampler \<Rightarrow> rat" where
  "declared_max m s = round_to_ulp (maxValues (accessors m ! nat (sampler_input s)) ! 0)"

definition channel_max :: "model \<Rightarrow> animation \<Rightarrow> channel \<Rightarrow> rat" where
  "channel_max m a c = declared_max m (samplers a ! nat (sampler c))"

text \<open>The channels of an animation that target a node of a given name, in the
  animation's order (what \<open>channels_per_joint\<close> holds for that name), and the channels
  the import dispatches for a skeleton.\<close>

definition joint_channels :: "model \<Rightarrow> animation \<Rightarrow> string \<Rightarrow> channel list" where
  "joint_channels m a jn =
     filter (\<lambda>c. target_node c \<noteq> - 1 \<and> name (nodes m ! nat (target_node c)) = jn) (channels a)"

definition sampled_channels :: "model \<Rightarrow> animation \<Rightarrow> string list \<Rightarrow> channel list" where
  "sampled_channels m a jns = concat (map (joint_channels m a) jns)"

text \<open>An animation without its channels whose target node is unset.\<close>

definition drop_untargeted :: "animation \<Rightarrow> animation" where
  "drop_untargeted a = a\<lparr>channels := filter (\<lambda>c. target_node c \<noteq> - 1) (channels a)\<rparr>"

text \<open>The rest pose of a node as a track: one key per property at time 0, holding the
  node's translation, rotation and scale as \<open>float\<close>s, and \<open>(0, 0, 0)\<close>, the identity
  rotation \<open>(0, 0, 0, 1)\<close> and \<open>(1, 1, 1)\<close> for a property the node omits.\<close>

definition rest_pose_track :: "node \<Rightarrow> JointTrack" where
  "rest_pose_track nd =
     \<lparr>translation_keys =
        [\<lparr>time = 0, val = (if translation nd = [] then [0, 0, 0]
            else map round_to_ulp (take 3 (translation nd)))\<rparr>],
      rotation_keys =
        [\<lparr>time = 0, val = (if rotation nd = [] then [0, 0, 0, 1]
            else map round_to_ulp (take 4 (rotation nd)))\<rparr>],
      scale_keys =
        [\<lparr>time = 0, val = (if scale nd = [] then [1, 1, 1]
            else map round_to_ulp (take 3 (scale nd)))\<rparr>]\<rparr>"

text \<open>A node whose translation, rotation and scale are each omitted or complete, with
  components in the range of \<open>float\<close>.\<close>

definition in_float_range :: "rat \<Rightarrow> bool" where
  "in_float_range x = (\<bar>x\<bar> < 2 ^ 128 - 2 ^ 103)"

definition trs_well_formed :: "node \<Rightarrow> bool" where
  "trs_well_formed nd =
     ((translation nd = [] \<or> 3 \<le> length (translation nd))
      \<and> (rotation nd = [] \<or> 4 \<le> length (rotation nd))
      \<and> (scale nd = [] \<or> 3 \<le> length (scale nd))
      \<and> list_all in_float_range (take 3 (translation nd))
      \<and> list_all in_float_range (take 4 (rotation nd))
      \<and> list_all in_float_range (take 3 (scale nd)))"

text \<open>The example document: the nodes \<open>J0\<close>, \<open>J1\<close>, \<open>J2\<close>, each the parent of the next,
  \<open>J0\<close> with a transform of its own and the others with none, and one animation \<open>A\<close> with
  one translation channel on \<open>J1\<close>, whose samples are \<open>(0, (0, 0, 0))\<close> and
  \<open>(1, (1, 0, 0))\<close>. The interpolation kind is left open.\<close>

definition example_node :: "string \<Rightarrow> int list \<Rightarrow> node" where
  "example_node n cs =
     \<lparr>name = n, translation = [], rotation = [], scale = [], matrix = [], children = cs\<rparr>"

definition posed_node :: "string \<Rightarrow> int list \<Rightarrow> node" where
  "posed_node n cs =
     \<lparr>name = n, translation = [1 / 10, 2, 3], rotation = [0, 1, 0, 0], scale = [2, 2, 2],
      matrix = [], children = cs\<rparr>"

definition example_nodes :: "node list" where
  "example_nodes = [posed_node ''J0'' [1], example_node ''J1'' [2], example_node ''J2'' []]"

definition example_times :: accessor where
  "example_times =
     \<lparr>count = 2, componentType = 5126, acc_type = TINYGLTF_TYPE_SCALAR, maxValues = [1],
      floats = [0, 1]\<rparr>"

definition example_channel :: channel where
  "example_channel = \<lparr>sampler = 0, target_node = 1, target_path = ''translation''\<rparr>"

definition example_sampler :: "string \<Rightarrow> sampler" where
  "example_sampler kind = \<lparr>sampler_input = 0, sampler_output = 1, interpolation = kind\<rparr>"

definition example_animation :: "string \<Rightarrow> animation" where
  "example_animation kind =
     \<lparr>anim_name = ''A'', channels = [example_channel], samplers = [example_sampler kind]\<rparr>"

definition example_model :: "string \<Rightarrow> model" where
  "example_model kind =
     \<lparr>nodes = example_nodes,
      accessors = [example_times, vec3_accessor 2 [0, 0, 0, 1, 0, 0]],
      animations = [example_animation kind]\<rparr>"

definition example_joints :: "string list" where
  "example_joints = [''J0'', ''J1'', ''J2'']"

text \<open>The example with the declared maximum of the timestamps set to \<open>- 3\<close>.\<close>

definition negative_max_model :: model where
  "negative_max_model =
     \<lparr>nodes = example_nodes,
      accessors = [example_times\<lparr>maxValues := [- 3]\<rparr>, vec3_accessor 2 [0, 0, 0, 1, 0, 0]],
      animations = [example_animation ''LINEAR'']\<rparr>"

text \<open>A freshly constructed \<open>RawAnimation\<close>, the track of a joint without a transform of
  its own and of \<open>J0\<close> in rest pose, and the import of the example with LINEAR
  interpolation.\<close>

definition fresh_animation :: RawAnimation where
  "fresh_animation = \<lparr>raw_name = [], duration = 0, tracks = []\<rparr>"

definition bind_pose_track :: JointTrack where
  "bind_pose_track =
     \<lparr>translation_keys = [\<lparr>time = 0, val = [0, 0, 0]\<rparr>],
      rotation_keys = [\<lparr>time = 0, val = [0, 0, 0, 1]\<rparr>],
      scale_keys = [\<lparr>time = 0, val = [1, 1, 1]\<rparr>]\<rparr>"

definition posed_track :: JointTrack where
  "posed_track =
     \<lparr>translation_keys = [\<lparr>time = 0, val = [13421773 / 134217728, 2, 3]\<rparr>],
      rotation_keys = [\<lparr>time = 0, val = [0, 1, 0, 0]\<rparr>],
      scale_keys = [\<lparr>time = 0, val = [2, 2, 2]\<rparr>]\<rparr>"

definition example_result :: RawAnimation where
  "example_result =
     \<lparr>raw_name = ''A'', duration = 1,
      tracks = [posed_track,
        bind_pose_track\<lparr>translation_keys := [\<lparr>time = 0, val = [0, 0, 0]\<rparr>, \<lparr>time = 1, val = [1, 0, 0]\<rparr>]\<rparr>,
        bind_pose_track]\<rparr>"

text \<open>Modelled from the spec: \<open>RawAnimation::Validate\<close> is not among the sources. The
  spec asks of a produced animation a non-negative duration, non-empty tracks and
  strictly increasing keyframe times per track. It stands for the parameter \<open>Validate\<close>
  in the examples only.\<close>

definition track_valid :: "key list \<Rightarrow> bool" where
  "track_valid ks = (ks \<noteq> [] \<and> sorted_wrt (<) (map time ks))"

definition Validate_spec :: "RawAnimation \<Rightarrow> bool" where
  "Validate_spec r =
     (0 \<le> duration r
      \<and> list_all (\<lambda>t. track_valid (translation_keys t) \<and> track_valid (rotation_keys t)
             \<and> track_valid (scale_keys t)) (tracks r))"

text \<open>A node that is its own child.\<close>

definition cyclic_nodes :: "node list" where
  "cyclic_nodes = [example_node ''loop'' [0]]"

text \<open>The output values of a CUBICSPLINE channel of three samples: the values
  \<open>(0, 0, 0)\<close>, \<open>(1, 1, 1)\<close> and \<open>(2, 2, 2)\<close>, each between its two tangents, all zero.\<close>

definition cubic_example :: "vec list" where
  "cubic_example = [[0, 0, 0], [0, 0, 0], [0, 0, 0], [0, 0, 0], [1, 1, 1], [0, 0, 0], [0, 0, 0], [2, 2, 2], [0, 0, 0]]"

declare linear_loop.simps [simp del] step_loop.simps [simp del]
  cubic_scan.simps [simp del] cubic_loop.simps [simp del]

section \<open>Basic facts\<close>

lemma bindE_Inr_iff: "bindE m f = Inr z \<longleftrightarrow> (\<exists>y. m = Inr y \<and> f y = Inr z)"
  by (simp add: bindE_def split: sum.splits)

lemma bindE_Inr [simp]: "bindE (Inr y) f = f y"
  by (simp add: bindE_def)

lemma bindE_Inl [simp]: "bindE (Inl e) f = Inl e"
  by (simp add: bindE_def)

lemma mapE_Inr: "mapE f xs = Inr ys \<Longrightarrow> length ys = length xs \<and> (\<forall>i<length xs. f (xs ! i) = Inr (ys ! i))"
proof (induction xs arbitrary: ys)
  case Nil
  then show ?case by simp
next
  case (Cons x xs)
  from Cons.prems obtain y ys' where y: "f x = Inr y" and ys': "mapE f xs = Inr ys'"
    and ys: "ys = y # ys'"
    by (auto simp add: bindE_Inr_iff)
  from Cons.IH [OF ys'] y ys show ?case
    by (auto simp add: nth_Cons split: nat.splits)
qed

lemma read_in_range [simp]: "i < length xs \<Longrightarrow> read xs i = Inr (xs ! i)"
  by (simp add: read_def)

lemma at_ref_in_range [simp]: "i < length xs \<Longrightarrow> at_ref xs i = Inr i"
  by (simp add: at_ref_def)

section \<open>Arithmetic of \<open>size_t\<close>\<close>

lemma unat_succ: "(i :: 64 word) < n \<Longrightarrow> unat (i + 1) = unat i + 1"
  by (metis (no_types, lifting) add.commute add_0 inc_i inc_le
        unat_plus_simple unsigned_0 unsigned_1 word_gt_0)

lemma unat_double: "unat (i :: 64 word) < 2 ^ 62 \<Longrightarrow> unat (i * 2) = 2 * unat i"
  by (simp add: unat_word_ariths)

lemma unat_double_succ: "unat (i :: 64 word) < 2 ^ 62 \<Longrightarrow> unat (i * 2 + 1) = 2 * unat i + 1"
  by (simp add: unat_word_ariths mod_add_left_eq)

lemma less_pred_iff: "0 < (n :: 64 word) \<Longrightarrow> i < n - 1 \<longleftrightarrow> unat i + 1 < unat n"
  by (metis less_diff_conv unat_minus_one word_gt_0 word_less_iff_unsigned)

section \<open>Rounding to \<open>float\<close>\<close>

lemma pow2_powi: "pow2 e = 2 powi e"
  unfolding pow2_def power_int_def by (simp add: inverse_eq_divide power_one_over)

lemma pow2_pos [simp]: "0 < pow2 e"
  by (simp add: pow2_powi)

lemma pow2_mono: "a \<le> b \<Longrightarrow> pow2 a \<le> pow2 b"
  by (simp add: pow2_powi power_int_increasing)

lemma pow2_strict_mono: "a < b \<Longrightarrow> pow2 a < pow2 b"
  by (simp add: pow2_powi power_int_strict_increasing)

lemma pow2_add: "pow2 (a + b) = pow2 a * pow2 b"
  by (simp add: pow2_powi power_int_add)

lemma pow2_nat: "0 \<le> e \<Longrightarrow> pow2 e = 2 ^ nat e"
  by (simp add: pow2_def)

text \<open>The exponent search finds the binade of a normal number.\<close>

lemma f32_exp_eq:
  "pow2 e \<le> x \<Longrightarrow> x < pow2 (e + 1) \<Longrightarrow> - 126 < e \<Longrightarrow> e \<le> int n - 126 \<Longrightarrow> f32_exp n x = e"
proof (induction n)
  case 0
  then show ?case by simp
next
  case (Suc n)
  show ?case
  proof (cases "pow2 (int n - 125) \<le> x")
    case True
    have "\<not> e < int n - 125"
    proof
      assume "e < int n - 125"
      then have "pow2 (e + 1) \<le> pow2 (int n - 125)"
        by (intro pow2_mono) simp
      with True Suc.prems(2) show False by simp
    qed
    with Suc.prems(4) have "e = int n - 125" by simp
    with True show ?thesis by simp
  next
    case False
    with Suc.prems(1) have "e \<noteq> int n - 125" by auto
    with Suc.prems(4) have "e \<le> int n - 126" by simp
    with Suc False show ?thesis by simp
  qed
qed

lemma f32_exp_ge: "- 126 \<le> f32_exp n x"
  by (induction n) auto

lemma f32_exp_le: "f32_exp n x \<noteq> - 126 \<Longrightarrow> pow2 (f32_exp n x) \<le> x"
  by (induction n) (auto split: if_splits)

lemma round_half_even_of_int [simp]: "round_half_even (of_int z) = z"
  by (simp add: round_half_even_def)

lemma round_to_ulp_normal:
  assumes "pow2 e \<le> \<bar>x\<bar>" and "\<bar>x\<bar> < pow2 (e + 1)" and "- 126 < e" and "e \<le> 127"
  shows "round_to_ulp x = of_int (round_half_even (x / pow2 (e - 23))) * pow2 (e - 23)"
proof -
  have "f32_exp 253 \<bar>x\<bar> = e"
    using assms by (intro f32_exp_eq) simp_all
  then show ?thesis by (simp add: round_to_ulp_def Let_def)
qed

text \<open>Integers up to \<open>2 ^ 24\<close> in magnitude are \<open>float\<close>s.\<close>

lemma round_to_ulp_of_int:
  assumes "\<bar>i\<bar> \<le> 2 ^ 24"
  shows "round_to_ulp (of_int i) = of_int i"
proof -
  define e where "e = f32_exp 253 \<bar>of_int i :: rat\<bar>"
  have ge: "- 126 \<le> e"
    by (simp add: e_def f32_exp_ge)
  have le: "e \<le> 24"
  proof (rule ccontr)
    assume "\<not> e \<le> 24"
    then have "25 \<le> e" by simp
    then have "pow2 25 \<le> pow2 e" by (rule pow2_mono)
    moreover have "pow2 e \<le> \<bar>of_int i\<bar>"
      using \<open>25 \<le> e\<close> unfolding e_def by (intro f32_exp_le) simp
    moreover have "\<bar>of_int i :: rat\<bar> \<le> 2 ^ 24"
      using assms by (metis of_int_abs of_int_le_iff of_int_numeral of_int_power)
    ultimately show False by (simp add: pow2_def)
  qed
  show ?thesis
  proof (cases "e \<le> 23")
    case True
    have "pow2 (e - 23) * pow2 (23 - e) = 1"
      by (simp add: pow2_add [symmetric] pow2_def)
    moreover have "pow2 (e - 23) \<noteq> 0"
      by (metis pow2_pos less_irrefl)
    ultimately have inv: "1 / pow2 (e - 23) = pow2 (23 - e)"
      by (simp add: divide_eq_eq mult.commute)
    have "of_int i / pow2 (e - 23) = (of_int (i * 2 ^ nat (23 - e)) :: rat)"
      using True inv by (simp add: pow2_nat divide_inverse)
    then have "round_to_ulp (of_int i) = of_int (i * 2 ^ nat (23 - e)) * pow2 (e - 23)"
      unfolding round_to_ulp_def Let_def e_def [symmetric] by (simp only: round_half_even_of_int)
    also have "\<dots> = of_int i * (pow2 (23 - e) * pow2 (e - 23))"
      using True by (simp add: pow2_nat)
    also have "\<dots> = of_int i"
      by (simp add: pow2_add [symmetric] pow2_def)
    finally show ?thesis .
  next
    case False
    with le have e: "e = 24" by simp
    then have "pow2 24 \<le> \<bar>of_int i :: rat\<bar>"
      unfolding e_def using f32_exp_le [of 253 "\<bar>of_int i :: rat\<bar>"] by simp
    then have "(2 :: rat) ^ 24 \<le> of_int \<bar>i\<bar>"
      by (simp add: pow2_def)
    then have "2 ^ 24 \<le> \<bar>i\<bar>"
      by (metis of_int_le_iff of_int_numeral of_int_power)
    with assms have "\<bar>i\<bar> = 2 ^ 24" by simp
    then have "\<bar>i\<bar> = 16777216" by simp
    then have "i = 2 * 8388608 \<or> i = 2 * (- 8388608)" by arith
    then obtain j where j: "i = 2 * j" by blast
    have "of_int i / pow2 (e - 23) = (of_int j :: rat)"
      by (simp add: e pow2_def j)
    then have "round_to_ulp (of_int i) = of_int j * pow2 (e - 23)"
      unfolding round_to_ulp_def Let_def e_def [symmetric] by (simp only: round_half_even_of_int)
    then show ?thesis
      by (simp add: e pow2_def j)
  qed
qed

lemma f32_in_range: "\<bar>x\<bar> < 2 ^ 128 - 2 ^ 103 \<Longrightarrow> f32 x = Inr (round_to_ulp x)"
  by (simp add: f32_def)

lemma f32_Inr: "f32 x = Inr y \<Longrightarrow> y = round_to_ulp x"
  by (simp add: f32_def split: if_splits)

lemma f32_of_int:
  assumes "\<bar>i\<bar> \<le> 2 ^ 24"
  shows "f32 (of_int i) = Inr (of_int i)"
proof -
  have "\<bar>of_int i :: rat\<bar> \<le> 2 ^ 24"
    using assms by (metis of_int_abs of_int_le_iff of_int_numeral of_int_power)
  then have "\<bar>of_int i :: rat\<bar> < 2 ^ 128 - 2 ^ 103"
    by simp
  then show ?thesis
    by (simp add: f32_in_range round_to_ulp_of_int [OF assms])
qed

lemma f32_0 [simp]: "f32 0 = Inr 0"
  using f32_of_int [of 0] by simp

lemma f32_1 [simp]: "f32 1 = Inr 1"
  using f32_of_int [of 1] by simp

lemma f32_neg_1 [simp]: "f32 (- 1) = Inr (- 1)"
  using f32_of_int [of "- 1"] by simp

lemma f32_numeral [simp]:
  "numeral k \<le> (16777216 :: int) \<Longrightarrow> f32 (numeral k) = Inr (numeral k)"
  using f32_of_int [of "numeral k"] by simp

lemma f32_neg_numeral [simp]:
  "numeral k \<le> (16777216 :: int) \<Longrightarrow> f32 (- numeral k) = Inr (- numeral k)"
  using f32_of_int [of "- numeral k"] by simp

lemma f32_of_nat: "n \<le> 2 ^ 24 \<Longrightarrow> f32 (of_nat n) = Inr (of_nat n)"
  using f32_of_int [of "int n"] by simp

lemma floor_numeral_div:
  "\<lfloor>numeral a / numeral b :: rat\<rfloor> = numeral a div numeral b"
  using floor_divide_of_int_eq [of "numeral a" "numeral b", where ?'a = rat] by simp

text \<open>The constant \<open>1e-6f\<close>.\<close>

lemma eps_eq: "eps = 8796093 / 2 ^ 43"
  unfolding eps_def
  by (subst round_to_ulp_normal [where e = "- 20"])
    (simp_all add: pow2_def round_half_even_def Let_def floor_numeral_div)

section \<open>The step sampler\<close>

lemma step_loop_unfold:
  assumes "i < n" and "unat n \<le> 2 ^ 62" and "unat n \<le> length ts" and "unat n \<le> length vs"
    and "length ks = 2 * unat n - 1"
    and "unat i + 1 < unat n \<longrightarrow> \<bar>ts ! (unat i + 1) - eps\<bar> < 2 ^ 128 - 2 ^ 103"
  shows "step_loop n ts vs i ks =
     step_loop n ts vs (i + 1)
       (if unat i + 1 < unat n
        then ks[2 * unat i := step_key ts vs (unat i), 2 * unat i + 1 := hold_key ts vs (unat i)]
        else ks[2 * unat i := step_key ts vs (unat i)])"
proof -
  from assms(1) have lt: "unat i < unat n"
    by (simp add: word_less_nat_alt)
  with assms(2) have small: "unat i < 2 ^ 62"
    by simp
  from assms(1) have pos: "0 < n"
    by (cases "n = 0") (simp_all add: word_gt_0)
  have pred: "i < n - 1 \<longleftrightarrow> unat i + 1 < unat n"
    using pos by (rule less_pred_iff)
  have succ: "unat (i + 1) = unat i + 1"
    using assms(1) by (rule unat_succ)
  from lt assms(5) have in1: "2 * unat i < length ks"
    by simp
  show ?thesis
  proof (cases "unat i + 1 < unat n")
    case True
    with assms(5) have in2: "2 * unat i + 1 < length ks"
      by simp
    from True assms(3) have "unat i + 1 < length ts"
      by simp
    moreover from True assms(6)
    have "fsub (ts ! (unat i + 1)) eps = Inr (round_to_ulp (ts ! (unat i + 1) - eps))"
      by (simp add: fsub_def f32_in_range)
    ultimately show ?thesis
      using True lt assms(3,4) in1 in2
      by (subst step_loop.simps)
        (simp add: assms(1) pred succ unat_double [OF small] unat_double_succ [OF small]
          step_key_def hold_key_def)
  next
    case False
    with lt assms(3,4) in1 show ?thesis
      by (subst step_loop.simps)
        (simp add: assms(1) pred succ unat_double [OF small] step_key_def)
  qed
qed

lemma step_loop_keys:
  assumes "unat n \<le> 2 ^ 62" and "unat n \<le> length ts" and "unat n \<le> length vs"
    and "\<forall>j. j + 1 < unat n \<longrightarrow> \<bar>ts ! (j + 1) - eps\<bar> < 2 ^ 128 - 2 ^ 103"
    and "length ks = 2 * unat n - 1"
    and "i \<le> n"
    and "\<forall>j<unat i. ks ! (2 * j) = step_key ts vs j
           \<and> (j + 1 < unat n \<longrightarrow> ks ! (2 * j + 1) = hold_key ts vs j)"
  shows "\<exists>ks'. step_loop n ts vs i ks = Inr ks' \<and> length ks' = 2 * unat n - 1
     \<and> (\<forall>j<unat n. ks' ! (2 * j) = step_key ts vs j
           \<and> (j + 1 < unat n \<longrightarrow> ks' ! (2 * j + 1) = hold_key ts vs j))"
  using assms(5-7)
proof (induction "unat n - unat i" arbitrary: i ks)
  case 0
  then have "i = n"
    by (simp add: word_le_nat_alt word_unat_eq_iff)
  then have "step_loop n ts vs i ks = Inr ks"
    by (subst step_loop.simps) simp
  with 0 \<open>i = n\<close> show ?case
    by simp
next
  case (Suc k)
  then have lt: "i < n"
    by (simp add: word_less_nat_alt)
  then have succ: "unat (i + 1) = unat i + 1"
    by (rule unat_succ)
  from lt have ltn: "unat i < unat n"
    by (simp add: word_less_nat_alt)
  define ks1 where "ks1 =
       (if unat i + 1 < unat n
        then ks[2 * unat i := step_key ts vs (unat i), 2 * unat i + 1 := hold_key ts vs (unat i)]
        else ks[2 * unat i := step_key ts vs (unat i)])"
  have unfold: "step_loop n ts vs i ks = step_loop n ts vs (i + 1) ks1"
    unfolding ks1_def using lt assms(1-3) Suc.prems(1)
  proof (rule step_loop_unfold)
    show "unat i + 1 < unat n \<longrightarrow> \<bar>ts ! (unat i + 1) - eps\<bar> < 2 ^ 128 - 2 ^ 103"
      using assms(4) by blast
  qed
  have len1: "length ks1 = 2 * unat n - 1"
    by (simp add: ks1_def Suc.prems(1))
  have le1: "i + 1 \<le> n"
    using lt by (simp add: inc_le)
  have k: "k = unat n - unat (i + 1)"
    using Suc.hyps(2) succ by simp
  have inv1: "\<forall>j<unat (i + 1). ks1 ! (2 * j) = step_key ts vs j
           \<and> (j + 1 < unat n \<longrightarrow> ks1 ! (2 * j + 1) = hold_key ts vs j)"
  proof (intro allI impI)
    fix j
    assume "j < unat (i + 1)"
    then have j: "j \<le> unat i"
      by (simp add: succ)
    show "ks1 ! (2 * j) = step_key ts vs j
           \<and> (j + 1 < unat n \<longrightarrow> ks1 ! (2 * j + 1) = hold_key ts vs j)"
    proof (cases "j = unat i")
      case True
      with ltn Suc.prems(1) show ?thesis
        by (simp add: ks1_def)
    next
      case False
      with j have "j < unat i" by simp
      with Suc.prems(3) have old: "ks ! (2 * j) = step_key ts vs j"
        "j + 1 < unat n \<longrightarrow> ks ! (2 * j + 1) = hold_key ts vs j"
        by simp_all
      from \<open>j < unat i\<close> have ne: "2 * unat i \<noteq> 2 * j" "2 * unat i \<noteq> 2 * j + 1"
        "2 * unat i + 1 \<noteq> 2 * j" "2 * unat i + 1 \<noteq> 2 * j + 1"
        by presburger+
      with old show ?thesis
        by (simp add: ks1_def)
    qed
  qed
  from Suc.hyps(1) [OF k len1 le1 inv1] unfold show ?case
    by simp
qed

lemma unat_step_numKeyframes:
  assumes "1 \<le> unat c" and "unat c \<le> 2 ^ 62"
  shows "unat (step_numKeyframes c) = 2 * unat c - 1"
proof -
  have d: "unat (c * 2) = 2 * unat c"
    using assms(2) by (simp add: unat_word_ariths)
  with assms(1) have "1 \<le> c * 2"
    by (simp add: word_le_nat_alt)
  then have "unat (c * 2 - 1) = unat (c * 2) - 1"
    by (simp add: unat_sub)
  with d show ?thesis
    by (simp add: step_numKeyframes_def)
qed

lemma chunks_3_6: "chunks 3 [a, b, c, d, e, f] = [[a, b, c], [d, e, f]]"
proof -
  have "[0..<length [a, b, c, d, e, f] div 3] = [0, 1]"
    by (simp add: upt_rec)
  then show ?thesis
    by (simp add: chunks_def)
qed

lemma BufferView_vec3_accessor_2:
  "BufferView Float3 (vec3_accessor n [a, b, c, d, e, f]) = Some [[a, b, c], [d, e, f]]"
  by (simp add: BufferView_def element_size_def GetComponentSizeInBytes_def
      GetTypeSizeInBytes_def TINYGLTF_TYPE_SCALAR_def TINYGLTF_TYPE_VEC2_def
      TINYGLTF_TYPE_VEC3_def Float3_def vec3_accessor_def chunks_3_6)

lemma count_vec3_accessor [simp]: "count (vec3_accessor n xs) = n"
  by (simp add: vec3_accessor_def)


text \<open>What the step sampler returns for \<open>n \<ge> 1\<close> samples: \<open>2 n - 1\<close> keys, the sample
  \<open>i\<close> at position \<open>2 i\<close> and its hold key, at the \<open>float\<close> difference of the next
  timestamp and \<open>eps\<close>, at position \<open>2 i + 1\<close>.\<close>

lemma SampleStepChannel_keys:
  assumes "BufferView T out = Some vs" and "unat (count out) = n" and "1 \<le> n"
    and "n \<le> 2 ^ 62" and "n \<le> length ts" and "n \<le> length vs"
    and "\<forall>j. j + 1 < n \<longrightarrow> \<bar>ts ! (j + 1) - eps\<bar> < 2 ^ 128 - 2 ^ 103"
  shows "\<exists>ks. SampleStepChannel T out ts keyframes = Inr ks
     \<and> length ks = 2 * n - 1
     \<and> (\<forall>i<n. ks ! (2 * i) = step_key ts vs i)
     \<and> (\<forall>i. i + 1 < n \<longrightarrow> ks ! (2 * i + 1) = hold_key ts vs i)"
proof -
  define ks0 where "ks0 = take (2 * n - 1) keyframes @ replicate (2 * n - 1 - length keyframes) (new_key T)"
  have num: "unat (step_numKeyframes (count out)) = 2 * n - 1"
    using assms(2-4) unat_step_numKeyframes [of "count out"] by simp
  have "2 * n - 1 \<le> max_size"
    using assms(4) by (simp add: max_size_def)
  then have rs: "resize (2 * n - 1) (new_key T) keyframes = Inr ks0"
    by (simp add: resize_def ks0_def)
  have len0: "length ks0 = 2 * unat (count out) - 1"
    by (simp add: ks0_def assms(2))
  have "\<exists>ks'. step_loop (count out) ts vs 0 ks0 = Inr ks' \<and> length ks' = 2 * unat (count out) - 1
     \<and> (\<forall>j<unat (count out). ks' ! (2 * j) = step_key ts vs j
           \<and> (j + 1 < unat (count out) \<longrightarrow> ks' ! (2 * j + 1) = hold_key ts vs j))"
  proof (rule step_loop_keys)
    show "unat (count out) \<le> 2 ^ 62" "unat (count out) \<le> length ts"
      "unat (count out) \<le> length vs"
      using assms(2,4-6) by simp_all
    show "\<forall>j. j + 1 < unat (count out) \<longrightarrow> \<bar>ts ! (j + 1) - eps\<bar> < 2 ^ 128 - 2 ^ 103"
      using assms(2,7) by simp
    show "length ks0 = 2 * unat (count out) - 1"
      by (rule len0)
    show "0 \<le> count out"
      by simp
    show "\<forall>j<unat (0 :: 64 word). ks0 ! (2 * j) = step_key ts vs j
           \<and> (j + 1 < unat (count out) \<longrightarrow> ks0 ! (2 * j + 1) = hold_key ts vs j)"
      by simp
  qed
  then obtain ks where ks: "step_loop (count out) ts vs 0 ks0 = Inr ks"
    and len: "length ks = 2 * n - 1"
    and at: "\<forall>j<n. ks ! (2 * j) = step_key ts vs j
           \<and> (j + 1 < n \<longrightarrow> ks ! (2 * j + 1) = hold_key ts vs j)"
    unfolding assms(2) by (elim exE conjE)
  have res: "SampleStepChannel T out ts keyframes = Inr ks"
    unfolding SampleStepChannel_def by (simp only: assms(1) option.case num rs bindE_Inr ks)
  from at have "\<forall>i<n. ks ! (2 * i) = step_key ts vs i"
    and "\<forall>i. i + 1 < n \<longrightarrow> ks ! (2 * i + 1) = hold_key ts vs i"
    by simp_all
  with res len show ?thesis
    by (intro exI [of _ ks] conjI)
qed

lemma fsub_64_eps: "fsub 64 eps = Inr 64"
proof -
  have "round_to_ulp (64 - 8796093 / 2 ^ 43) = 64"
    by (subst round_to_ulp_normal [where e = 5])
      (simp_all add: pow2_def round_half_even_def Let_def floor_numeral_div)
  then show ?thesis
    by (simp add: fsub_def eps_eq f32_in_range)
qed

lemma eps_small: "eps < 1"
  by (simp add: eps_eq)

text \<open>
  C3 fails on the code. The claim: for a STEP channel of \<open>n \<ge> 1\<close> samples the sampler
  gives \<open>2 n - 1\<close> keys, the sample \<open>(t i, v i)\<close> at position \<open>2 i\<close> and the hold key
  \<open>(t (i + 1) - eps, v i)\<close> at position \<open>2 i + 1\<close>, and when \<open>eps\<close> is smaller than the
  smallest step of the timestamps the output times are strictly increasing. The channel
  here has the timestamps 63 and 64, a step of 1, greater than \<open>eps = 1e-6f\<close>. The sampler
  gives the three keys at their positions, but the hold key of the first sample has the
  time 64, the time of the second sample: the \<open>float\<close> difference \<open>64 - eps\<close> is 64 again.
  The output times 63, 64, 64 are not strictly increasing.
\<close>

theorem step_times_example:
  "eps < 64 - 63
   \<and> SampleStepChannel Float3 (vec3_accessor 2 [1, 2, 3, 4, 5, 6]) [63, 64] []
       = Inr [\<lparr>time = 63, val = [1, 2, 3]\<rparr>, \<lparr>time = 64, val = [1, 2, 3]\<rparr>,
              \<lparr>time = 64, val = [4, 5, 6]\<rparr>]
   \<and> \<not> sorted_wrt (<) (map time [\<lparr>time = 63, val = [1, 2, 3]\<rparr>, \<lparr>time = 64, val = [1, 2, 3]\<rparr>,
              \<lparr>time = 64, val = [4, 5, 6]\<rparr>])"
proof -
  have "unat (step_numKeyframes 2) = 3"
    by (simp add: step_numKeyframes_def)
  moreover have "resize 3 (new_key Float3) [] = Inr [new_key Float3, new_key Float3, new_key Float3]"
    by (simp add: resize_def max_size_def numeral_3_eq_3)
  ultimately have "SampleStepChannel Float3 (vec3_accessor 2 [1, 2, 3, 4, 5, 6]) [63, 64] []
      = step_loop 2 [63, 64] [[1, 2, 3], [4, 5, 6]] 0 [new_key Float3, new_key Float3, new_key Float3]"
    by (simp add: SampleStepChannel_def BufferView_vec3_accessor_2)
  also have "\<dots> = step_loop 2 [63, 64] [[1, 2, 3], [4, 5, 6]] 1
      [\<lparr>time = 63, val = [1, 2, 3]\<rparr>, \<lparr>time = 64, val = [1, 2, 3]\<rparr>, new_key Float3]"
    by (subst step_loop.simps) (simp add: fsub_64_eps)
  also have "\<dots> = step_loop 2 [63, 64] [[1, 2, 3], [4, 5, 6]] 2
      [\<lparr>time = 63, val = [1, 2, 3]\<rparr>, \<lparr>time = 64, val = [1, 2, 3]\<rparr>, \<lparr>time = 64, val = [4, 5, 6]\<rparr>]"
    by (subst step_loop.simps) simp
  also have "\<dots> = Inr [\<lparr>time = 63, val = [1, 2, 3]\<rparr>, \<lparr>time = 64, val = [1, 2, 3]\<rparr>, \<lparr>time = 64, val = [4, 5, 6]\<rparr>]"
    by (subst step_loop.simps) simp
  finally show ?thesis
    using eps_small by simp
qed

section \<open>The cubic spline sampler\<close>

lemma upt_0_9: "[0..<9] = [0, 1, 2, 3, 4, 5, 6, 7, 8]"
  by (simp add: upt_rec)

lemma BufferView_vec3_accessor_9:
  "BufferView Float3 (vec3_accessor n [a0, a1, a2, b0, b1, b2, c0, c1, c2, d0, d1, d2, e0, e1, e2, f0, f1, f2, g0, g1, g2, h0, h1, h2, i0, i1, i2])
     = Some [[a0, a1, a2], [b0, b1, b2], [c0, c1, c2], [d0, d1, d2], [e0, e1, e2], [f0, f1, f2], [g0, g1, g2], [h0, h1, h2], [i0, i1, i2]]"
  by (simp add: BufferView_def element_size_def GetComponentSizeInBytes_def
      GetTypeSizeInBytes_def TINYGLTF_TYPE_SCALAR_def TINYGLTF_TYPE_VEC2_def
      TINYGLTF_TYPE_VEC3_def Float3_def vec3_accessor_def chunks_def upt_0_9)

lemmas float_ops = fadd_def fsub_def fmul_def fdiv_def vadd_def vscale_def

lemma cubic_example_nth:
  "cubic_example ! 0 = [0, 0, 0]" "cubic_example ! 1 = [0, 0, 0]" "cubic_example ! Suc 0 = [0, 0, 0]" "cubic_example ! 2 = [0, 0, 0]"
  "cubic_example ! 3 = [0, 0, 0]" "cubic_example ! 4 = [1, 1, 1]" "length cubic_example = 9"
  by (simp_all add: cubic_example_def)

lemma cubic_scan_example: "cubic_scan [0, 1, 2] 3 0 0 = Inr 0" "cubic_scan [0, 1, 2] 3 1 0 = Inr 0" "cubic_scan [0, 1, 2] 3 2 0 = Inr 0"
  by (simp_all add: cubic_scan.simps)

lemma cubic_t_example: "cubic_t 0 0 1 = Inr 0" "cubic_t 1 0 1 = Inr 1" "cubic_t 2 0 1 = Inr 2"
  by (simp_all add: cubic_t_def float_ops)

lemma SampleHermiteSpline_example: "SampleHermiteSpline 0 [0, 0, 0] [0, 0, 0] [1, 1, 1] [0, 0, 0] = Inr [0, 0, 0]"
  "SampleHermiteSpline 1 [0, 0, 0] [0, 0, 0] [1, 1, 1] [0, 0, 0] = Inr [1, 1, 1]"
  "SampleHermiteSpline 2 [0, 0, 0] [0, 0, 0] [1, 1, 1] [0, 0, 0] = Inr [- 4, - 4, - 4]"
  by (simp_all add: SampleHermiteSpline_def float_ops)

lemma cubic_body_0: "length ks = 3 \<Longrightarrow> cubic_body 1 3 [0, 1, 2] cubic_example 0 ks 0
   = Inr (ks[0 := \<lparr>time = 0, val = [0, 0, 0]\<rparr>], 0)"
  by (simp add: cubic_body_def cubic_scan_example cubic_t_example SampleHermiteSpline_example
      cubic_example_nth float_ops)

lemma cubic_body_1: "length ks = 3 \<Longrightarrow> cubic_body 1 3 [0, 1, 2] cubic_example 1 ks 0
   = Inr (ks[1 := \<lparr>time = 1, val = [1, 1, 1]\<rparr>], 0)"
  by (simp add: cubic_body_def cubic_scan_example cubic_t_example SampleHermiteSpline_example
      cubic_example_nth float_ops)

lemma cubic_body_2: "length ks = 3 \<Longrightarrow> cubic_body 1 3 [0, 1, 2] cubic_example 2 ks 0
   = Inr (ks[2 := \<lparr>time = 2, val = [- 4, - 4, - 4]\<rparr>], 0)"
  by (simp add: cubic_body_def cubic_scan_example cubic_t_example SampleHermiteSpline_example
      cubic_example_nth float_ops)


text \<open>
  C1 fails on the code. The channel has the timestamps 0, 1, 2 (strictly increasing) and
  the values \<open>cubic_example\<close>; it is sampled at the rate 1 over the duration 2. At the
  output time 2, inside the authored span, the segment search stays at key 0 (it advances
  only while the timestamp of the current key is greater than the output time), so the
  spline is evaluated on the segment from 0 to 1, which does not contain 2, with the
  parameter \<open>t = 2\<close>, outside of \<open>[0, 1]\<close>: the key at time 2 has the value \<open>- 4\<close> where
  the authored value is 2.
\<close>

theorem cubic_segment_example:
  "SampleCubicSplineChannel Float3
      (vec3_accessor 9 [0, 0, 0, 0, 0, 0, 0, 0, 0, 0, 0, 0, 1, 1, 1, 0, 0, 0, 0, 0, 0, 2, 2, 2, 0, 0, 0])
      [0, 1, 2] [] 1 2
     = Inr [\<lparr>time = 0, val = [0, 0, 0]\<rparr>, \<lparr>time = 1, val = [1, 1, 1]\<rparr>, \<lparr>time = 2, val = [- 4, - 4, - 4]\<rparr>]
   \<and> cubic_scan [0, 1, 2] 3 2 0 = Inr 0
   \<and> [0, 1, 2] ! 1 < (2 :: rat)
   \<and> cubic_t 2 0 1 = Inr 2"
proof -
  have n: "fmul 2 1 = Inr 2" "fadd 2 1 = Inr 3" "float_to_size_t 3 = Inr 3"
    by (simp_all add: float_to_size_t_def float_ops)
  have r: "resize 3 (new_key Float3) [] = Inr [new_key Float3, new_key Float3, new_key Float3]"
    by (simp add: resize_def max_size_def numeral_3_eq_3)
  have "SampleCubicSplineChannel Float3
      (vec3_accessor 9 [0, 0, 0, 0, 0, 0, 0, 0, 0, 0, 0, 0, 1, 1, 1, 0, 0, 0, 0, 0, 0, 2, 2, 2, 0, 0, 0])
      [0, 1, 2] [] 1 2
    = cubic_loop 1 3 [0, 1, 2] cubic_example 0 [new_key Float3, new_key Float3, new_key Float3] 0"
    unfolding SampleCubicSplineChannel_def BufferView_vec3_accessor_9
    by (simp add: n r cubic_example_def)
  also have "\<dots> = cubic_loop 1 3 [0, 1, 2] cubic_example 1
      [\<lparr>time = 0, val = [0, 0, 0]\<rparr>, new_key Float3, new_key Float3] 0"
    by (subst cubic_loop.simps) (simp add: cubic_body_0)
  also have "\<dots> = cubic_loop 1 3 [0, 1, 2] cubic_example 2
      [\<lparr>time = 0, val = [0, 0, 0]\<rparr>, \<lparr>time = 1, val = [1, 1, 1]\<rparr>, new_key Float3] 0"
    by (subst cubic_loop.simps) (simp add: cubic_body_1)
  also have "\<dots> = cubic_loop 1 3 [0, 1, 2] cubic_example 3
      [\<lparr>time = 0, val = [0, 0, 0]\<rparr>, \<lparr>time = 1, val = [1, 1, 1]\<rparr>, \<lparr>time = 2, val = [- 4, - 4, - 4]\<rparr>] 0"
    by (subst cubic_loop.simps) (simp add: cubic_body_2)
  also have "\<dots> = Inr [\<lparr>time = 0, val = [0, 0, 0]\<rparr>, \<lparr>time = 1, val = [1, 1, 1]\<rparr>, \<lparr>time = 2, val = [- 4, - 4, - 4]\<rparr>]"
    by (subst cubic_loop.simps) simp
  finally show ?thesis
    by (simp add: cubic_scan_example cubic_t_example)
qed

section \<open>Animation import: the loops\<close>

lemma read_int_Inr: "read_int xs i = Inr x \<Longrightarrow> 0 \<le> i \<and> nat i < length xs \<and> x = xs ! nat i"
  by (simp add: read_int_def split: if_splits)

lemma read_Inr: "read xs i = Inr x \<Longrightarrow> i < length xs \<and> x = xs ! i"
  by (simp add: read_def split: if_splits)

subsection \<open>The dispatcher\<close>

lemma sampled_None: "sampled r d track store = (None, d', track') \<Longrightarrow> d' = d"
  by (simp add: sampled_def split: sum.splits)

lemma sampled_duration: "fst (snd (sampled r d track store)) = d"
  by (simp add: sampled_def split: sum.splits)

text \<open>Once the declared maximum is read, the dispatcher raises the accumulator to it,
  whatever happens to the channel afterwards.\<close>

lemma SampleAnimationChannel_raises:
  assumes "read_int (accessors m) (sampler_input s) = Inr inp" and "length (maxValues inp) = 1"
    and "f32 (maxValues inp ! 0) = Inr d"
  shows "fst (snd (SampleAnimationChannel N m s p rate d0 track)) = max d0 d"
  using assms
  by (auto simp add: SampleAnimationChannel_def Let_def max_def sampled_duration
      split: sum.splits option.splits)

lemma SampleAnimationChannel_duration:
  assumes "SampleAnimationChannel N m s p rate d track = (None, d', track')"
  shows "d' = max d (declared_max m s)"
proof -
  from assms obtain inp where inp: "read_int (accessors m) (sampler_input s) = Inr inp"
    by (cases "read_int (accessors m) (sampler_input s)") (auto simp add: SampleAnimationChannel_def)
  with assms have len: "length (maxValues inp) = 1"
    by (auto simp add: SampleAnimationChannel_def split: if_splits)
  with assms inp obtain x where x: "f32 (maxValues inp ! 0) = Inr x"
    by (cases "f32 (maxValues inp ! 0)") (auto simp add: SampleAnimationChannel_def)
  from inp have "inp = accessors m ! nat (sampler_input s)"
    by (simp add: read_int_Inr)
  with x have "x = declared_max m s"
    by (simp add: declared_max_def f32_Inr)
  with SampleAnimationChannel_raises [OF inp len x, of N p rate d track] assms show ?thesis
    by simp
qed

lemma SampleAnimationChannel_model:
  "SampleAnimationChannel N (m\<lparr>animations := x\<rparr>) s p rate d track
     = SampleAnimationChannel N m s p rate d track"
  by (simp add: SampleAnimationChannel_def Let_def cong: sum.case_cong if_cong)

subsection \<open>The map from joint names to channels\<close>

lemma channels_per_joint_filter:
  "channels_per_joint ns (filter (\<lambda>c. target_node c \<noteq> - 1) cs) cpj = channels_per_joint ns cs cpj"
  by (induction cs arbitrary: cpj) (simp_all split: sum.splits)

lemma channels_per_joint_eq:
  assumes "channels_per_joint ns cs cpj0 = Inr cpj"
  shows "cpj jn = cpj0 jn
     @ filter (\<lambda>c. target_node c \<noteq> - 1 \<and> name (ns ! nat (target_node c)) = jn) cs"
  using assms
proof (induction cs arbitrary: cpj0)
  case Nil
  then show ?case by simp
next
  case (Cons c cs)
  show ?case
  proof (cases "target_node c = - 1")
    case True
    with Cons show ?thesis by simp
  next
    case False
    with Cons.prems obtain target where t: "read_int ns (target_node c) = Inr target"
      and rest: "channels_per_joint ns cs (cpj0(name target := cpj0 (name target) @ [c])) = Inr cpj"
      by (auto split: sum.splits)
    from t have "target = ns ! nat (target_node c)"
      by (simp add: read_int_Inr)
    with Cons.IH [OF rest] False show ?thesis
      by simp
  qed
qed

subsection \<open>The loop over the channels of a joint\<close>

lemma channels_loop_model:
  "channels_loop N (m\<lparr>animations := x\<rparr>) (a\<lparr>channels := y\<rparr>) rate cs d track
     = channels_loop N m a rate cs d track"
  by (induction cs arbitrary: d track)
    (simp_all add: SampleAnimationChannel_model split: sum.splits prod.splits option.splits)

lemma channels_loop_duration:
  assumes "channels_loop N m a rate cs d track = Inr (d', track')"
  shows "d' = fold max (map (channel_max m a) cs) d"
  using assms
proof (induction cs arbitrary: d track)
  case Nil
  then show ?case by simp
next
  case (Cons c cs)
  from Cons.prems obtain s d1 track1 where s: "read_int (samplers a) (sampler c) = Inr s"
    and one: "SampleAnimationChannel N m s (target_path c) rate d track = (None, d1, track1)"
    and rest: "channels_loop N m a rate cs d1 track1 = Inr (d', track')"
    by (auto split: sum.splits prod.splits option.splits)
  from s have "s = samplers a ! nat (sampler c)"
    by (simp add: read_int_Inr)
  with one have "d1 = max d (channel_max m a c)"
    by (simp add: channel_max_def SampleAnimationChannel_duration)
  with Cons.IH [OF rest] show ?case
    by (simp add: max.commute)
qed

lemma channels_loop_fails:
  assumes "c \<in> set cs"
    and "\<And>s d track. read_int (samplers a) (sampler c) = Inr s \<Longrightarrow>
          \<exists>e d' track'. SampleAnimationChannel N m s (target_path c) rate d track = (Some e, d', track')"
  shows "\<exists>e. channels_loop N m a rate cs d track = Inl e"
  using assms(1)
proof (induction cs arbitrary: d track)
  case Nil
  then show ?case by simp
next
  case (Cons x cs)
  show ?case
  proof (cases "read_int (samplers a) (sampler x)")
    case (Inl e)
    then show ?thesis by simp
  next
    case (Inr s)
    obtain st d1 track1 where one: "SampleAnimationChannel N m s (target_path x) rate d track = (st, d1, track1)"
      by (cases "SampleAnimationChannel N m s (target_path x) rate d track") auto
    show ?thesis
    proof (cases st)
      case (Some e)
      with Inr one show ?thesis by simp
    next
      case None
      have "x \<noteq> c"
      proof
        assume "x = c"
        with Inr assms(2) [of s d track] one None show False by auto
      qed
      with Cons.prems have "c \<in> set cs" by simp
      from Cons.IH [OF this] Inr one None show ?thesis by simp
    qed
  qed
qed

subsection \<open>The loop over the joints\<close>

lemma joints_loop_model:
  "joints_loop N (m\<lparr>animations := x\<rparr>) (a\<lparr>channels := y\<rparr>) rate cpj jns i d trs
     = joints_loop N m a rate cpj jns i d trs"
  by (induction jns arbitrary: i d trs)
    (simp_all add: channels_loop_model split: sum.splits prod.splits option.splits)

lemma joints_loop_Cons:
  assumes "joints_loop N m a rate cpj (jn # jns) i d trs = Inr (d', trs')"
  obtains d1 track1 nd track2 where "i < length trs"
    and "channels_loop N m a rate (cpj jn) d (trs ! i) = Inr (d1, track1)"
    and "FindNodeByName (nodes m) jn = Some nd"
    and "pad_track nd track1 = Inr track2"
    and "joints_loop N m a rate cpj jns (i + 1) d1 (trs[i := track2]) = Inr (d', trs')"
  using assms
  by (auto simp add: read_def split: sum.splits prod.splits option.splits if_splits)

lemma joints_loop_length:
  "joints_loop N m a rate cpj jns i d trs = Inr (d', trs') \<Longrightarrow> length trs' = length trs"
proof (induction jns arbitrary: i d trs)
  case Nil
  then show ?case by simp
next
  case (Cons jn jns)
  from Cons.prems show ?case
    by (elim joints_loop_Cons) (auto dest: Cons.IH)
qed

lemma joints_loop_before:
  "joints_loop N m a rate cpj jns i d trs = Inr (d', trs') \<Longrightarrow> j < i \<Longrightarrow> trs' ! j = trs ! j"
proof (induction jns arbitrary: i d trs)
  case Nil
  then show ?case by simp
next
  case (Cons jn jns)
  from Cons.prems(1) show ?case
  proof (rule joints_loop_Cons)
    fix d1 track1 nd track2
    assume "joints_loop N m a rate cpj jns (i + 1) d1 (trs[i := track2]) = Inr (d', trs')"
    from Cons.IH [OF this] Cons.prems(2) show ?thesis
      by simp
  qed
qed

lemma joints_loop_duration:
  assumes "joints_loop N m a rate cpj jns i d trs = Inr (d', trs')"
  shows "d' = fold max (map (channel_max m a) (concat (map cpj jns))) d"
  using assms
proof (induction jns arbitrary: i d trs)
  case Nil
  then show ?case by simp
next
  case (Cons jn jns)
  from Cons.prems show ?case
  proof (rule joints_loop_Cons)
    fix d1 track1 nd track2
    assume ch: "channels_loop N m a rate (cpj jn) d (trs ! i) = Inr (d1, track1)"
      and rest: "joints_loop N m a rate cpj jns (i + 1) d1 (trs[i := track2]) = Inr (d', trs')"
    from Cons.IH [OF rest] channels_loop_duration [OF ch] show ?thesis
      by simp
  qed
qed

lemma joints_loop_unauthored:
  assumes "joints_loop N m a rate cpj jns i d trs = Inr (d', trs')"
    and "k < length jns" and "cpj (jns ! k) = []"
  shows "\<exists>nd. FindNodeByName (nodes m) (jns ! k) = Some nd
     \<and> pad_track nd (trs ! (i + k)) = Inr (trs' ! (i + k))"
  using assms
proof (induction jns arbitrary: i d trs k)
  case Nil
  then show ?case by simp
next
  case (Cons jn jns)
  from Cons.prems(1) show ?case
  proof (rule joints_loop_Cons)
    fix d1 track1 nd track2
    assume i: "i < length trs"
      and ch: "channels_loop N m a rate (cpj jn) d (trs ! i) = Inr (d1, track1)"
      and nd: "FindNodeByName (nodes m) jn = Some nd"
      and pad: "pad_track nd track1 = Inr track2"
      and rest: "joints_loop N m a rate cpj jns (i + 1) d1 (trs[i := track2]) = Inr (d', trs')"
    show ?thesis
    proof (cases k)
      case 0
      with Cons.prems(3) ch have "track1 = trs ! i"
        by simp
      moreover from joints_loop_before [OF rest, of i] i have "trs' ! i = track2"
        by simp
      ultimately show ?thesis
        using 0 nd pad by simp
    next
      case (Suc k')
      with Cons.prems(2,3) have "k' < length jns" and "cpj (jns ! k') = []"
        by simp_all
      from Cons.IH [OF rest this] Suc show ?thesis
        by simp
    qed
  qed
qed

lemma joints_loop_fails:
  assumes "jn \<in> set jns"
    and "\<And>d track. \<exists>e. channels_loop N m a rate (cpj jn) d track = Inl e"
  shows "\<exists>e. joints_loop N m a rate cpj jns i d trs = Inl e"
  using assms(1)
proof (induction jns arbitrary: i d trs)
  case Nil
  then show ?case by simp
next
  case (Cons x jns)
  show ?case
  proof (cases "joints_loop N m a rate cpj (x # jns) i d trs")
    case (Inl e)
    then show ?thesis by simp
  next
    case (Inr r)
    obtain d' trs' where "r = (d', trs')"
      by (cases r)
    with Inr have "joints_loop N m a rate cpj (x # jns) i d trs = Inr (d', trs')"
      by simp
    then show ?thesis
    proof (rule joints_loop_Cons)
      fix d1 track1 nd track2
      assume ch: "channels_loop N m a rate (cpj x) d (trs ! i) = Inr (d1, track1)"
        and rest: "joints_loop N m a rate cpj jns (i + 1) d1 (trs[i := track2]) = Inr (d', trs')"
      from ch assms(2) [of d "trs ! i"] have "x \<noteq> jn"
        by auto
      with Cons.prems have "jn \<in> set jns"
        by simp
      from Cons.IH [OF this, of "i + 1" d1 "trs[i := track2]"] rest show ?thesis
        by simp
    qed
  qed
qed

section \<open>Bind pose keys\<close>

lemma round_to_ulp_0 [simp]: "round_to_ulp 0 = 0"
  using round_to_ulp_of_int [of 0] by simp

lemma round_to_ulp_1 [simp]: "round_to_ulp 1 = 1"
  using round_to_ulp_of_int [of 1] by simp

lemma round_to_ulp_numeral [simp]: "numeral k \<le> (16777216 :: int) \<Longrightarrow> round_to_ulp (numeral k) = numeral k"
  using round_to_ulp_of_int [of "numeral k"] by simp

lemma round_to_ulp_neg_numeral [simp]:
  "numeral k \<le> (16777216 :: int) \<Longrightarrow> round_to_ulp (- numeral k) = - numeral k"
  using round_to_ulp_of_int [of "- numeral k"] by simp

lemma round_to_ulp_tenth: "round_to_ulp (1 / 10) = 13421773 / 134217728"
  by (subst round_to_ulp_normal [where e = "- 4"])
    (simp_all add: pow2_def round_half_even_def Let_def floor_numeral_div)

lemma take_3: "3 \<le> length xs \<Longrightarrow> take 3 xs = [xs ! 0, xs ! 1, xs ! 2]"
  by (cases xs; cases "tl xs"; cases "tl (tl xs)") (auto simp add: numeral_3_eq_3)

lemma take_4: "4 \<le> length xs \<Longrightarrow> take 4 xs = [xs ! 0, xs ! 1, xs ! 2, xs ! 3]"
  by (cases xs; cases "tl xs"; cases "tl (tl xs)"; cases "tl (tl (tl xs))")
    (auto simp add: numeral_3_eq_3 eval_nat_numeral)

lemma read_short: "\<not> i < length xs \<Longrightarrow> read xs i = Inl UndefinedBehaviour"
  by (simp add: read_def)

lemma mapE_f32_Inr: "mapE f32 xs = Inr v \<Longrightarrow> v = map round_to_ulp xs"
proof (induction xs arbitrary: v)
  case Nil
  then show ?case by simp
next
  case (Cons x xs)
  then show ?case
    by (auto simp add: bindE_Inr_iff dest: f32_Inr)
qed

lemma mapE_f32_in_range: "list_all in_float_range xs \<Longrightarrow> mapE f32 xs = Inr (map round_to_ulp xs)"
  by (induction xs) (simp_all add: in_float_range_def f32_in_range)

text \<open>The bind pose keys read the first components of the node's properties; a property
  that is present and too short is read out of range.\<close>

lemma CreateTranslationBindPoseKey_eq:
  "CreateTranslationBindPoseKey nd =
     (if translation nd = [] then Inr \<lparr>time = 0, val = [0, 0, 0]\<rparr>
      else if length (translation nd) < 3 then Inl UndefinedBehaviour
      else bindE (mapE f32 (take 3 (translation nd))) (\<lambda>v. Inr \<lparr>time = 0, val = v\<rparr>))"
proof -
  consider "translation nd = []" | "3 \<le> length (translation nd)"
    | "length (translation nd) = 1" | "length (translation nd) = 2"
  proof -
    have "length (translation nd) = 0 \<or> length (translation nd) = 1 \<or> length (translation nd) = 2 \<or> 3 \<le> length (translation nd)"
      by arith
    then show ?thesis
      using that by auto
  qed
  then show ?thesis
  proof cases
    case 1
    then show ?thesis by (simp add: CreateTranslationBindPoseKey_def)
  next
    case 2
    then have "translation nd \<noteq> []" by auto
    with 2 show ?thesis
      by (simp add: CreateTranslationBindPoseKey_def take_3 read_in_range del: mapE.simps)
  next
    case 3
    then have "translation nd \<noteq> []" by auto
    with 3 show ?thesis
      by (simp add: CreateTranslationBindPoseKey_def read_in_range read_short)
  next
    case 4
    then have "translation nd \<noteq> []" by auto
    with 4 show ?thesis
      by (simp add: CreateTranslationBindPoseKey_def read_in_range read_short)
  qed
qed

lemma CreateScaleBindPoseKey_eq:
  "CreateScaleBindPoseKey nd =
     (if scale nd = [] then Inr \<lparr>time = 0, val = [1, 1, 1]\<rparr>
      else if length (scale nd) < 3 then Inl UndefinedBehaviour
      else bindE (mapE f32 (take 3 (scale nd))) (\<lambda>v. Inr \<lparr>time = 0, val = v\<rparr>))"
proof -
  consider "scale nd = []" | "3 \<le> length (scale nd)"
    | "length (scale nd) = 1" | "length (scale nd) = 2"
  proof -
    have "length (scale nd) = 0 \<or> length (scale nd) = 1 \<or> length (scale nd) = 2 \<or> 3 \<le> length (scale nd)"
      by arith
    then show ?thesis
      using that by auto
  qed
  then show ?thesis
  proof cases
    case 1
    then show ?thesis by (simp add: CreateScaleBindPoseKey_def)
  next
    case 2
    then have "scale nd \<noteq> []" by auto
    with 2 show ?thesis
      by (simp add: CreateScaleBindPoseKey_def take_3 read_in_range del: mapE.simps)
  next
    case 3
    then have "scale nd \<noteq> []" by auto
    with 3 show ?thesis
      by (simp add: CreateScaleBindPoseKey_def read_in_range read_short)
  next
    case 4
    then have "scale nd \<noteq> []" by auto
    with 4 show ?thesis
      by (simp add: CreateScaleBindPoseKey_def read_in_range read_short)
  qed
qed

lemma CreateRotationBindPoseKey_eq:
  "CreateRotationBindPoseKey nd =
     (if rotation nd = [] then Inr \<lparr>time = 0, val = [0, 0, 0, 1]\<rparr>
      else if length (rotation nd) < 4 then Inl UndefinedBehaviour
      else bindE (mapE f32 (take 4 (rotation nd))) (\<lambda>v. Inr \<lparr>time = 0, val = v\<rparr>))"
proof -
  consider "rotation nd = []" | "4 \<le> length (rotation nd)"
    | "length (rotation nd) = 1" | "length (rotation nd) = 2" | "length (rotation nd) = 3"
  proof -
    have "length (rotation nd) = 0 \<or> length (rotation nd) = 1 \<or> length (rotation nd) = 2 \<or> length (rotation nd) = 3 \<or> 4 \<le> length (rotation nd)"
      by arith
    then show ?thesis
      using that by auto
  qed
  then show ?thesis
  proof cases
    case 1
    then show ?thesis by (simp add: CreateRotationBindPoseKey_def)
  next
    case 2
    then have "rotation nd \<noteq> []" by auto
    with 2 show ?thesis
      by (simp add: CreateRotationBindPoseKey_def take_4 read_in_range del: mapE.simps)
  next
    case 3
    then have "rotation nd \<noteq> []" by auto
    with 3 show ?thesis
      by (simp add: CreateRotationBindPoseKey_def read_in_range read_short)
  next
    case 4
    then have "rotation nd \<noteq> []" by auto
    with 4 show ?thesis
      by (simp add: CreateRotationBindPoseKey_def read_in_range read_short)
  next
    case 5
    then have "rotation nd \<noteq> []" by auto
    with 5 show ?thesis
      by (simp add: CreateRotationBindPoseKey_def read_in_range read_short)
  qed
qed

lemmas bind_pose_keys =
  CreateTranslationBindPoseKey_eq CreateRotationBindPoseKey_eq CreateScaleBindPoseKey_eq

lemma pad_track_empty:
  assumes "pad_track nd empty_track = Inr t"
  shows "t = rest_pose_track nd"
  using assms
  by (auto simp add: pad_track_def empty_track_def bindE_Inr_iff bind_pose_keys rest_pose_track_def
      dest!: mapE_f32_Inr split: if_splits)

lemma pad_track_well_formed:
  assumes "trs_well_formed nd"
  shows "pad_track nd empty_track = Inr (rest_pose_track nd)"
  using assms
  by (auto simp add: pad_track_def empty_track_def bind_pose_keys rest_pose_track_def
      trs_well_formed_def mapE_f32_in_range)

section \<open>The example documents\<close>


lemma resize_Nil: "n < 2 ^ 63 \<Longrightarrow> resize n d [] = Inr (replicate n d)"
  by (simp add: resize_def max_size_def)

lemma replicate_2: "replicate 2 x = [x, x]"
  by (simp add: numeral_2_eq_2)

lemma replicate_3: "replicate 3 x = [x, x, x]"
  by (simp add: numeral_3_eq_3)

lemma linear_example:
  "SampleLinearChannel Float3 (vec3_accessor 2 [0, 0, 0, 1, 0, 0]) [0, 1] []
     = Inr [\<lparr>time = 0, val = [0, 0, 0]\<rparr>, \<lparr>time = 1, val = [1, 0, 0]\<rparr>]"
proof -
  have r: "resize 2 (new_key Float3) [] = Inr [new_key Float3, new_key Float3]"
    by (simp add: resize_Nil replicate_2)
  have "SampleLinearChannel Float3 (vec3_accessor 2 [0, 0, 0, 1, 0, 0]) [0, 1] []
      = linear_loop 2 [0, 1] [[0, 0, 0], [1, 0, 0]] 0 [new_key Float3, new_key Float3]"
    by (simp add: SampleLinearChannel_def BufferView_vec3_accessor_2 r)
  also have "\<dots> = linear_loop 2 [0, 1] [[0, 0, 0], [1, 0, 0]] 1
      [\<lparr>time = 0, val = [0, 0, 0]\<rparr>, new_key Float3]"
    by (subst linear_loop.simps) simp
  also have "\<dots> = linear_loop 2 [0, 1] [[0, 0, 0], [1, 0, 0]] 2
      [\<lparr>time = 0, val = [0, 0, 0]\<rparr>, \<lparr>time = 1, val = [1, 0, 0]\<rparr>]"
    by (subst linear_loop.simps) simp
  also have "\<dots> = Inr [\<lparr>time = 0, val = [0, 0, 0]\<rparr>, \<lparr>time = 1, val = [1, 0, 0]\<rparr>]"
    by (subst linear_loop.simps) simp
  finally show ?thesis .
qed

lemma BufferView_float_example: "BufferView_float (example_times\<lparr>maxValues := mx\<rparr>) = Some [0, 1]"
  by (simp add: BufferView_float_def element_size_def example_times_def
      GetComponentSizeInBytes_def GetTypeSizeInBytes_def)

lemma example_times_maxValues: "example_times\<lparr>maxValues := [1]\<rparr> = example_times"
  by (simp add: example_times_def)

lemma example_accessors:
  "read_int (accessors (example_model kind)) 0 = Inr example_times"
  "read_int (accessors (example_model kind)) 1 = Inr (vec3_accessor 2 [0, 0, 0, 1, 0, 0])"
  by (simp_all add: example_model_def read_int_def)

lemma example_times_fields:
  "maxValues example_times = [1]" "acc_type example_times = TINYGLTF_TYPE_SCALAR"
  "count example_times = 2"
  by (simp_all add: example_times_def)

lemma acc_type_vec3_accessor: "acc_type (vec3_accessor n xs) = TINYGLTF_TYPE_VEC3"
  by (simp add: vec3_accessor_def)

text \<open>The example, for any declared maximum \<open>mx\<close> of the timestamps that is a \<open>float\<close>
  \<open>d\<close>.\<close>

lemma SampleAnimationChannel_linear:
  assumes "accessors m = [example_times\<lparr>maxValues := [mx]\<rparr>, vec3_accessor 2 [0, 0, 0, 1, 0, 0]]"
    and "f32 mx = Inr d"
  shows "SampleAnimationChannel N m (example_sampler ''LINEAR'') ''translation'' rate 0 empty_track
     = (None, max 0 d,
        empty_track\<lparr>translation_keys := [\<lparr>time = 0, val = [0, 0, 0]\<rparr>, \<lparr>time = 1, val = [1, 0, 0]\<rparr>]\<rparr>)"
proof -
  have "read_int (accessors m) 0 = Inr (example_times\<lparr>maxValues := [mx]\<rparr>)"
    "read_int (accessors m) 1 = Inr (vec3_accessor 2 [0, 0, 0, 1, 0, 0])"
    by (simp_all add: assms(1) read_int_def)
  then show ?thesis
    by (simp add: SampleAnimationChannel_def example_sampler_def assms(2)
        example_times_fields acc_type_vec3_accessor BufferView_float_example
        linear_example sampled_def empty_track_def max_def)
qed

lemma trs_well_formed_posed_node: "trs_well_formed (posed_node n cs)"
  by (simp add: trs_well_formed_def posed_node_def in_float_range_def)

lemma trs_well_formed_example_node: "trs_well_formed (example_node n cs)"
  by (simp add: trs_well_formed_def example_node_def)

lemma rest_pose_track_posed_node: "rest_pose_track (posed_node n cs) = posed_track"
  by (simp add: rest_pose_track_def posed_node_def posed_track_def round_to_ulp_tenth)

lemma rest_pose_track_example_node: "rest_pose_track (example_node n cs) = bind_pose_track"
  by (simp add: rest_pose_track_def example_node_def bind_pose_track_def)

lemma pad_track_posed: "pad_track (posed_node n cs) empty_track = Inr posed_track"
  using pad_track_well_formed [OF trs_well_formed_posed_node, of n cs]
  by (simp add: rest_pose_track_posed_node)

lemma pad_track_example: "pad_track (example_node n cs) empty_track = Inr bind_pose_track"
  using pad_track_well_formed [OF trs_well_formed_example_node, of n cs]
  by (simp add: rest_pose_track_example_node)

lemma pad_track_example_authored:
  "pad_track (example_node n cs) (empty_track\<lparr>translation_keys := [k, k']\<rparr>)
     = Inr (bind_pose_track\<lparr>translation_keys := [k, k']\<rparr>)"
  by (simp add: pad_track_def empty_track_def example_node_def bind_pose_track_def
      CreateTranslationBindPoseKey_def CreateRotationBindPoseKey_def CreateScaleBindPoseKey_def)

lemma FindNodeByName_example:
  "FindNodeByName example_nodes ''J0'' = Some (posed_node ''J0'' [1])"
  "FindNodeByName example_nodes ''J1'' = Some (example_node ''J1'' [2])"
  "FindNodeByName example_nodes ''J2'' = Some (example_node ''J2'' [])"
  by (simp_all add: FindNodeByName_def example_nodes_def example_node_def posed_node_def)

lemma channels_per_joint_example:
  "channels_per_joint example_nodes [example_channel] (\<lambda>n. [])
     = Inr ((\<lambda>n. [])(''J1'' := [example_channel]))"
  by (simp add: example_channel_def example_nodes_def example_node_def read_int_def)

lemma example_model_fields:
  "nodes (example_model kind) = example_nodes"
  "animations (example_model kind) = [example_animation kind]"
  "accessors (example_model kind) = [example_times, vec3_accessor 2 [0, 0, 0, 1, 0, 0]]"
  by (simp_all add: example_model_def)

lemma negative_max_model_fields:
  "nodes negative_max_model = example_nodes"
  "animations negative_max_model = [example_animation ''LINEAR'']"
  "accessors negative_max_model = [example_times\<lparr>maxValues := [- 3]\<rparr>, vec3_accessor 2 [0, 0, 0, 1, 0, 0]]"
  by (simp_all add: negative_max_model_def)

lemma example_animation_fields:
  "anim_name (example_animation kind) = ''A''"
  "channels (example_animation kind) = [example_channel]"
  "samplers (example_animation kind) = [example_sampler kind]"
  by (simp_all add: example_animation_def)

lemma joints_loop_linear:
  assumes "accessors m = [example_times\<lparr>maxValues := [mx]\<rparr>, vec3_accessor 2 [0, 0, 0, 1, 0, 0]]"
    and "f32 mx = Inr d" and "nodes m = example_nodes"
  shows "joints_loop N m (example_animation ''LINEAR'') rate
      ((\<lambda>n. [])(''J1'' := [example_channel])) example_joints 0 0
      [empty_track, empty_track, empty_track]
     = Inr (max 0 d, tracks example_result)"
  by (simp add: example_joints_def assms(3) example_animation_fields
      FindNodeByName_example pad_track_example pad_track_posed pad_track_example_authored
      example_channel_def read_int_def SampleAnimationChannel_linear [OF assms(1,2)]
      example_result_def)

lemma Validate_spec_example: "0 \<le> d \<Longrightarrow> Validate_spec (example_result\<lparr>duration := d\<rparr>)"
  by (simp add: Validate_spec_def example_result_def track_valid_def bind_pose_track_def
      posed_track_def)

lemma Import_linear:
  assumes "accessors m = [example_times\<lparr>maxValues := [mx]\<rparr>, vec3_accessor 2 [0, 0, 0, 1, 0, 0]]"
    and "f32 mx = Inr d" and "nodes m = example_nodes"
    and "animations m = [example_animation ''LINEAR'']"
  shows "Import Validate_spec N m ''A'' example_joints rate fresh_animation
     = Inr (example_result\<lparr>duration := max 0 d\<rparr>)"
proof -
  have "resize (length example_joints) empty_track (tracks fresh_animation)
      = Inr [empty_track, empty_track, empty_track]"
    by (simp add: example_joints_def fresh_animation_def resize_Nil replicate_3)
  moreover have "\<lparr>raw_name = ''A'', duration = max 0 d, tracks = tracks example_result\<rparr>
      = example_result\<lparr>duration := max 0 d\<rparr>"
    by (simp add: example_result_def)
  moreover have "Validate_spec (example_result\<lparr>duration := max 0 d\<rparr>)"
    by (rule Validate_spec_example) simp
  ultimately show ?thesis
    by (simp add: Import_def assms(3,4) example_animation_fields
        channels_per_joint_example joints_loop_linear [OF assms(1,2,3)]
        del: channels_per_joint.simps joints_loop.simps)
qed

lemma Import_example:
  "Import Validate_spec N (example_model ''LINEAR'') ''A'' example_joints rate fresh_animation
     = Inr example_result"
proof -
  have "example_result\<lparr>duration := max 0 1\<rparr> = example_result"
    by (simp add: example_result_def)
  with Import_linear [of "example_model ''LINEAR''" 1 1 N rate] show ?thesis
    by (simp add: example_model_fields example_times_maxValues)
qed

lemma Import_negative_max:
  "Import Validate_spec N negative_max_model ''A'' example_joints rate fresh_animation
     = Inr (example_result\<lparr>duration := 0\<rparr>)"
  using Import_linear [of negative_max_model "- 3" "- 3" N rate]
  by (simp add: negative_max_model_fields)

subsection \<open>Import\<close>

lemma Import_Inr:
  assumes "Import V N m an jns rate a0 = Inr result"
  obtains a trs cpj d trs' where "find (\<lambda>a. anim_name a = an) (animations m) = Some a"
    and "resize (length jns) empty_track (tracks a0) = Inr trs"
    and "channels_per_joint (nodes m) (channels a) (\<lambda>n. []) = Inr cpj"
    and "joints_loop N m a (if rate = 0 then 30 else rate) cpj jns 0 0 trs = Inr (d, trs')"
    and "result = \<lparr>raw_name = anim_name a, duration = d, tracks = trs'\<rparr>"
    and "V result"
  using assms unfolding Import_def Let_def
  by (auto simp add: bindE_Inr_iff split: option.splits if_splits)

lemma channels_per_joint_joint_channels:
  assumes "channels_per_joint (nodes m) (channels a) (\<lambda>n. []) = Inr cpj"
  shows "cpj = joint_channels m a"
  using channels_per_joint_eq [OF assms] by (auto simp add: joint_channels_def)

lemma fold_max_Max: "fold max xs (d :: rat) = Max (insert d (set xs))"
  using Max.set_eq_fold [of d xs] by simp

lemma Import_duration_general:
  assumes "Import V N m an jns rate a0 = Inr result"
    and "find (\<lambda>a. anim_name a = an) (animations m) = Some a"
  shows "duration result = Max (insert 0 (channel_max m a ` set (sampled_channels m a jns)))"
proof -
  from assms(1) obtain a' trs cpj d trs'
    where "find (\<lambda>a. anim_name a = an) (animations m) = Some a'"
      and cpj: "channels_per_joint (nodes m) (channels a') (\<lambda>n. []) = Inr cpj"
      and loop: "joints_loop N m a' (if rate = 0 then 30 else rate) cpj jns 0 0 trs = Inr (d, trs')"
      and res: "result = \<lparr>raw_name = anim_name a', duration = d, tracks = trs'\<rparr>"
    by (rule Import_Inr)
  with assms(2) have a: "a' = a"
    by simp
  from cpj have "cpj = joint_channels m a"
    unfolding a by (rule channels_per_joint_joint_channels)
  with joints_loop_duration [OF loop] have "d = fold max (map (channel_max m a) (sampled_channels m a jns)) 0"
    by (simp add: a sampled_channels_def)
  with res show ?thesis
    by (simp add: fold_max_Max)
qed

lemma resize_Nil_Inr: "resize n d [] = Inr xs \<Longrightarrow> xs = replicate n d"
  by (simp add: resize_def split: if_splits)

lemma joint_channels_example:
  "joint_channels (example_model kind) (example_animation kind) ''J0'' = []"
  "joint_channels (example_model kind) (example_animation kind) ''J1'' = [example_channel]"
  "joint_channels (example_model kind) (example_animation kind) ''J2'' = []"
  by (simp_all add: joint_channels_def example_model_fields example_animation_fields
      example_channel_def example_nodes_def example_node_def posed_node_def)

lemma find_example:
  "find (\<lambda>a. anim_name a = ''A'') (animations (example_model kind)) = Some (example_animation kind)"
  by (simp add: example_model_fields example_animation_fields)

section \<open>Joints without channels\<close>

text \<open>
  C4. A joint that no channel of the animation targets has exactly one key in each of its
  three tracks, at time 0: the translation, the rotation and the scale of the node of the
  joint's name, converted to \<open>float\<close>, or \<open>(0, 0, 0)\<close>, the identity rotation
  \<open>(0, 0, 0, 1)\<close> and \<open>(1, 1, 1)\<close> where the node omits the component. The padding of
  an empty track gives that track for every node whose properties are omitted or complete
  and in the range of \<open>float\<close>, and after a successful import into a freshly constructed
  animation it is the track of every joint without channels.
\<close>

theorem Import_unauthored_joint:
  "(trs_well_formed nd \<longrightarrow> pad_track nd empty_track = Inr (rest_pose_track nd))
   \<and> (Import Validate Normalize m animation_name joint_names sampling_rate animation0 = Inr result
        \<longrightarrow> tracks animation0 = []
        \<longrightarrow> find (\<lambda>a. anim_name a = animation_name) (animations m) = Some a
        \<longrightarrow> i < length joint_names
        \<longrightarrow> joint_channels m a (joint_names ! i) = []
        \<longrightarrow> FindNodeByName (nodes m) (joint_names ! i) = Some nd
        \<longrightarrow> tracks result ! i = rest_pose_track nd)"
proof (intro conjI impI)
  assume "trs_well_formed nd"
  then show "pad_track nd empty_track = Inr (rest_pose_track nd)"
    by (rule pad_track_well_formed)
next
  assume imp: "Import Validate Normalize m animation_name joint_names sampling_rate animation0 = Inr result"
    and fresh: "tracks animation0 = []"
    and found: "find (\<lambda>a. anim_name a = animation_name) (animations m) = Some a"
    and i: "i < length joint_names"
    and none: "joint_channels m a (joint_names ! i) = []"
    and nd: "FindNodeByName (nodes m) (joint_names ! i) = Some nd"
  from imp obtain a' trs cpj d trs'
    where "find (\<lambda>a. anim_name a = animation_name) (animations m) = Some a'"
      and rs: "resize (length joint_names) empty_track (tracks animation0) = Inr trs"
      and cpj: "channels_per_joint (nodes m) (channels a') (\<lambda>n. []) = Inr cpj"
      and loop: "joints_loop Normalize m a' (if sampling_rate = 0 then 30 else sampling_rate) cpj
          joint_names 0 0 trs = Inr (d, trs')"
      and res: "result = \<lparr>raw_name = anim_name a', duration = d, tracks = trs'\<rparr>"
    by (rule Import_Inr)
  with found have a: "a' = a"
    by simp
  from cpj have "cpj = joint_channels m a"
    unfolding a by (rule channels_per_joint_joint_channels)
  with none have "cpj (joint_names ! i) = []"
    by simp
  from joints_loop_unauthored [OF loop i this] nd
  have pad: "pad_track nd (trs ! i) = Inr (trs' ! i)"
    by simp
  from rs fresh i have "trs ! i = empty_track"
    by (auto dest!: resize_Nil_Inr)
  with pad have "pad_track nd empty_track = Inr (trs' ! i)"
    by simp
  from pad_track_empty [OF this] res show "tracks result ! i = rest_pose_track nd"
    by simp
qed

theorem Import_unauthored_joint_witness:
  "Import Validate_spec id (example_model ''LINEAR'') ''A'' example_joints 30 fresh_animation
     = Inr example_result
   \<and> joint_channels (example_model ''LINEAR'') (example_animation ''LINEAR'') (example_joints ! 0) = []
   \<and> FindNodeByName (nodes (example_model ''LINEAR'')) (example_joints ! 0)
       = Some (posed_node ''J0'' [1])
   \<and> trs_well_formed (posed_node ''J0'' [1])
   \<and> pad_track (posed_node ''J0'' [1]) empty_track = Inr (tracks example_result ! 0)
   \<and> tracks example_result ! 0 =
       \<lparr>translation_keys = [\<lparr>time = 0, val = [13421773 / 134217728, 2, 3]\<rparr>],
        rotation_keys = [\<lparr>time = 0, val = [0, 1, 0, 0]\<rparr>],
        scale_keys = [\<lparr>time = 0, val = [2, 2, 2]\<rparr>]\<rparr>
   \<and> joint_channels (example_model ''LINEAR'') (example_animation ''LINEAR'') (example_joints ! 2) = []
   \<and> tracks example_result ! 2 =
       \<lparr>translation_keys = [\<lparr>time = 0, val = [0, 0, 0]\<rparr>],
        rotation_keys = [\<lparr>time = 0, val = [0, 0, 0, 1]\<rparr>],
        scale_keys = [\<lparr>time = 0, val = [1, 1, 1]\<rparr>]\<rparr>"
proof -
  let ?m = "example_model ''LINEAR''" and ?a = "example_animation ''LINEAR''"
  have imp: "Import Validate_spec id ?m ''A'' example_joints 30 fresh_animation = Inr example_result"
    by (rule Import_example)
  have fresh: "tracks fresh_animation = []"
    by (simp add: fresh_animation_def)
  have found: "find (\<lambda>a. anim_name a = ''A'') (animations ?m) = Some ?a"
    by (rule find_example)
  have len: "0 < length example_joints" "2 < length example_joints"
    by (simp_all add: example_joints_def)
  have none: "joint_channels ?m ?a (example_joints ! 0) = []"
    "joint_channels ?m ?a (example_joints ! 2) = []"
    by (simp_all add: example_joints_def joint_channels_example)
  have nd: "FindNodeByName (nodes ?m) (example_joints ! 0) = Some (posed_node ''J0'' [1])"
    "FindNodeByName (nodes ?m) (example_joints ! 2) = Some (example_node ''J2'' [])"
    by (simp_all add: example_joints_def example_model_fields FindNodeByName_example)
  have wf: "trs_well_formed (posed_node ''J0'' [1])"
    by (rule trs_well_formed_posed_node)
  note J0 = Import_unauthored_joint [of "posed_node ''J0'' [1]" Validate_spec id ?m "''A''"
      example_joints 30 fresh_animation example_result ?a 0]
  note J2 = Import_unauthored_joint [of "example_node ''J2'' []" Validate_spec id ?m "''A''"
      example_joints 30 fresh_animation example_result ?a 2]
  from J0 wf have pad: "pad_track (posed_node ''J0'' [1]) empty_track
      = Inr (rest_pose_track (posed_node ''J0'' [1]))"
    by (elim conjE) simp
  from J0 imp fresh found len(1) none(1) nd(1)
  have t0: "tracks example_result ! 0 = rest_pose_track (posed_node ''J0'' [1])"
    by (elim conjE) simp
  from J2 imp fresh found len(2) none(2) nd(2)
  have t2: "tracks example_result ! 2 = rest_pose_track (example_node ''J2'' [])"
    by (elim conjE) simp
  have r0: "rest_pose_track (posed_node ''J0'' [1]) =
       \<lparr>translation_keys = [\<lparr>time = 0, val = [13421773 / 134217728, 2, 3]\<rparr>],
        rotation_keys = [\<lparr>time = 0, val = [0, 1, 0, 0]\<rparr>],
        scale_keys = [\<lparr>time = 0, val = [2, 2, 2]\<rparr>]\<rparr>"
    by (simp add: rest_pose_track_posed_node posed_track_def)
  have r2: "rest_pose_track (example_node ''J2'' []) =
       \<lparr>translation_keys = [\<lparr>time = 0, val = [0, 0, 0]\<rparr>],
        rotation_keys = [\<lparr>time = 0, val = [0, 0, 0, 1]\<rparr>],
        scale_keys = [\<lparr>time = 0, val = [1, 1, 1]\<rparr>]\<rparr>"
    by (simp add: rest_pose_track_example_node bind_pose_track_def)
  from imp none nd(1) wf pad t0 t2 r0 r2 show ?thesis
    by (simp only: simp_thms)
qed

section \<open>The duration of an animation\<close>

text \<open>
  C5 does not hold as stated: the accumulator starts at 0, so a negative declared maximum
  never raises it. What holds: once the dispatcher has read the declared maximum of a
  channel's input accessor (as a \<open>float\<close>), the accumulator is the greater of its old
  value and that maximum, whatever becomes of the channel; and after a successful import
  the duration of the animation is the greatest of 0 and the declared maxima (as
  \<open>float\<close>s) of the channels the import sampled, hence 0 when it sampled none, and never
  negative.
\<close>

theorem Import_duration:
  "(read_int (accessors m) (sampler_input s) = Inr inp \<longrightarrow> length (maxValues inp) = 1
      \<longrightarrow> f32 (maxValues inp ! 0) = Inr d
      \<longrightarrow> fst (snd (SampleAnimationChannel Normalize m s path sampling_rate duration0 track))
            = max duration0 d)
   \<and> (Import Validate Normalize m animation_name joint_names sampling_rate animation0 = Inr result
        \<longrightarrow> find (\<lambda>a. anim_name a = animation_name) (animations m) = Some a
        \<longrightarrow> duration result
              = Max (insert 0 (channel_max m a ` set (sampled_channels m a joint_names)))
            \<and> (sampled_channels m a joint_names = [] \<longrightarrow> duration result = 0)
            \<and> 0 \<le> duration result)"
proof (intro conjI impI)
  assume "read_int (accessors m) (sampler_input s) = Inr inp" "length (maxValues inp) = 1"
    "f32 (maxValues inp ! 0) = Inr d"
  then show "fst (snd (SampleAnimationChannel Normalize m s path sampling_rate duration0 track))
      = max duration0 d"
    by (rule SampleAnimationChannel_raises)
next
  assume imp: "Import Validate Normalize m animation_name joint_names sampling_rate animation0 = Inr result"
    and found: "find (\<lambda>a. anim_name a = animation_name) (animations m) = Some a"
  let ?M = "channel_max m a ` set (sampled_channels m a joint_names)"
  from imp found show d: "duration result = Max (insert 0 ?M)"
    by (rule Import_duration_general)
  have "finite (insert 0 ?M)" "0 \<in> insert 0 ?M"
    by simp_all
  then have "0 \<le> Max (insert 0 ?M)"
    by (rule Max_ge)
  with d show "0 \<le> duration result"
    by simp
  assume "sampled_channels m a joint_names = []"
  with d show "duration result = 0"
    by simp
qed

theorem Import_duration_witness:
  "Import Validate_spec id (example_model ''LINEAR'') ''A'' example_joints 30 fresh_animation
     = Inr example_result
   \<and> sampled_channels (example_model ''LINEAR'') (example_animation ''LINEAR'') example_joints
       = [example_channel]
   \<and> channel_max (example_model ''LINEAR'') (example_animation ''LINEAR'') example_channel = 1
   \<and> duration example_result = 1
   \<and> fst (snd (SampleAnimationChannel id (example_model ''LINEAR'') (example_sampler ''LINEAR'')
        ''translation'' 30 0 empty_track)) = 1"
proof -
  let ?m = "example_model ''LINEAR''" and ?a = "example_animation ''LINEAR''"
  have imp: "Import Validate_spec id ?m ''A'' example_joints 30 fresh_animation = Inr example_result"
    by (rule Import_example)
  have found: "find (\<lambda>a. anim_name a = ''A'') (animations ?m) = Some ?a"
    by (rule find_example)
  have s: "sampled_channels ?m ?a example_joints = [example_channel]"
    by (simp add: sampled_channels_def example_joints_def joint_channels_example)
  have c: "channel_max ?m ?a example_channel = 1"
    by (simp add: channel_max_def declared_max_def example_animation_fields example_channel_def
        example_sampler_def example_model_def example_times_def)
  have inp: "read_int (accessors ?m) (sampler_input (example_sampler ''LINEAR'')) = Inr example_times"
    by (simp add: example_sampler_def example_accessors)
  have mx: "length (maxValues example_times) = 1" "f32 (maxValues example_times ! 0) = Inr 1"
    by (simp_all add: example_times_fields)
  note dur = Import_duration [where m = ?m and s = "example_sampler ''LINEAR''"
      and inp = example_times and d = 1 and Normalize = id and path = "''translation''"
      and sampling_rate = 30 and ?duration0.0 = 0 and track = empty_track
      and Validate = Validate_spec and animation_name = "''A''" and joint_names = example_joints
      and ?animation0.0 = fresh_animation and result = example_result and a = ?a]
  from dur inp mx have "fst (snd (SampleAnimationChannel id ?m (example_sampler ''LINEAR'')
      ''translation'' 30 0 empty_track)) = max 0 1"
    by (elim conjE) simp
  moreover from dur imp found
  have "duration example_result = Max (insert 0 (channel_max ?m ?a ` set (sampled_channels ?m ?a example_joints)))"
    by (elim conjE) simp
  ultimately show ?thesis
    using imp s c by simp
qed

theorem Import_duration_counterexample:
  "Import Validate_spec id negative_max_model ''A'' example_joints 30 fresh_animation
     = Inr (example_result\<lparr>duration := 0\<rparr>)
   \<and> sampled_channels negative_max_model (example_animation ''LINEAR'') example_joints
       = [example_channel]
   \<and> channel_max negative_max_model (example_animation ''LINEAR'') example_channel = - 3
   \<and> duration (example_result\<lparr>duration := 0\<rparr>) = 0
   \<and> duration (example_result\<lparr>duration := 0\<rparr>)
       \<noteq> Max (channel_max negative_max_model (example_animation ''LINEAR'')
               ` set (sampled_channels negative_max_model (example_animation ''LINEAR'')
                   example_joints))"
proof -
  let ?m = negative_max_model and ?a = "example_animation ''LINEAR''"
  have imp: "Import Validate_spec id ?m ''A'' example_joints 30 fresh_animation
      = Inr (example_result\<lparr>duration := 0\<rparr>)"
    by (rule Import_negative_max)
  have j: "joint_channels ?m ?a ''J0'' = []" "joint_channels ?m ?a ''J1'' = [example_channel]"
    "joint_channels ?m ?a ''J2'' = []"
    by (simp_all add: joint_channels_def negative_max_model_fields example_animation_fields
        example_channel_def example_nodes_def example_node_def posed_node_def)
  have s: "sampled_channels ?m ?a example_joints = [example_channel]"
    by (simp add: sampled_channels_def example_joints_def j)
  have c: "channel_max ?m ?a example_channel = - 3"
    by (simp add: channel_max_def declared_max_def example_animation_fields example_channel_def
        example_sampler_def negative_max_model_def example_times_def)
  from imp s c show ?thesis
    by simp
qed

section \<open>Unsupported channels\<close>

text \<open>
  C6. A channel whose sampler has an interpolation kind other than LINEAR, STEP and
  CUBICSPLINE (the empty string included), or whose target path is none of translation,
  rotation and scale, makes the dispatcher fail and leaves the track as it was; and when
  such a channel of the animation targets a joint of the skeleton, the import fails.
\<close>

theorem unsupported_channel_fails:
  assumes "interpolation s \<notin> {''LINEAR'', ''STEP'', ''CUBICSPLINE''}
      \<or> target_path c \<notin> {''translation'', ''rotation'', ''scale''}"
  shows "(\<exists>e d. SampleAnimationChannel Normalize m s (target_path c) sampling_rate duration0 track
            = (Some e, d, track))
     \<and> (find (\<lambda>a. anim_name a = animation_name) (animations m) = Some a
          \<longrightarrow> c \<in> set (channels a)
          \<longrightarrow> read_int (samplers a) (sampler c) = Inr s
          \<longrightarrow> target_node c \<noteq> - 1
          \<longrightarrow> name (nodes m ! nat (target_node c)) \<in> set joint_names
          \<longrightarrow> (\<exists>e. Import Validate Normalize m animation_name joint_names rate animation0 = Inl e))"
proof (intro conjI impI)
  have one: "\<exists>e d. SampleAnimationChannel Normalize m s (target_path c) r d0 t = (Some e, d, t)"
    for r d0 t
    using assms
    by (auto simp add: SampleAnimationChannel_def Let_def split: sum.splits option.splits)
  then show "\<exists>e d. SampleAnimationChannel Normalize m s (target_path c) sampling_rate duration0 track
            = (Some e, d, track)" .
  assume a: "find (\<lambda>a. anim_name a = animation_name) (animations m) = Some a"
    and c: "c \<in> set (channels a)"
    and s: "read_int (samplers a) (sampler c) = Inr s"
    and t: "target_node c \<noteq> - 1"
    and j: "name (nodes m ! nat (target_node c)) \<in> set joint_names"
  show "\<exists>e. Import Validate Normalize m animation_name joint_names rate animation0 = Inl e"
  proof (cases "Import Validate Normalize m animation_name joint_names rate animation0")
    case (Inl e)
    then show ?thesis by simp
  next
    case (Inr result)
    then obtain a' trs cpj d trs'
      where "find (\<lambda>a. anim_name a = animation_name) (animations m) = Some a'"
        and cpj: "channels_per_joint (nodes m) (channels a') (\<lambda>n. []) = Inr cpj"
        and loop: "joints_loop Normalize m a' (if rate = 0 then 30 else rate) cpj joint_names 0 0 trs
            = Inr (d, trs')"
      by (rule Import_Inr)
    with a have a': "a' = a"
      by simp
    from cpj have "cpj = joint_channels m a"
      unfolding a' by (rule channels_per_joint_joint_channels)
    with c t have "c \<in> set (cpj (name (nodes m ! nat (target_node c))))"
      by (simp add: joint_channels_def)
    then have "\<exists>e. channels_loop Normalize m a (if rate = 0 then 30 else rate)
        (cpj (name (nodes m ! nat (target_node c)))) d0 t0 = Inl e" for d0 t0
    proof (rule channels_loop_fails)
      fix s' d1 t1
      assume "read_int (samplers a) (sampler c) = Inr s'"
      with s have "s' = s" by simp
      with one [of "if rate = 0 then 30 else rate" d1 t1]
      show "\<exists>e d' track'. SampleAnimationChannel Normalize m s' (target_path c)
          (if rate = 0 then 30 else rate) d1 t1 = (Some e, d', track')"
        by blast
    qed
    with j have "\<exists>e. joints_loop Normalize m a (if rate = 0 then 30 else rate) cpj joint_names 0 0 trs
        = Inl e"
      by (intro joints_loop_fails) blast+
    with loop show ?thesis
      by (simp add: a')
  qed
qed

theorem unsupported_channel_fails_witness:
  "(\<exists>e d. SampleAnimationChannel id (example_model ''SLERP'') (example_sampler ''SLERP'')
        (target_path example_channel) 30 0 empty_track = (Some e, d, empty_track))
   \<and> (\<exists>e. Import Validate_spec id (example_model ''SLERP'') ''A'' example_joints 30 fresh_animation
        = Inl e)"
proof -
  have "interpolation (example_sampler ''SLERP'') \<notin> {''LINEAR'', ''STEP'', ''CUBICSPLINE''}
      \<or> target_path example_channel \<notin> {''translation'', ''rotation'', ''scale''}"
    by (simp add: example_sampler_def)
  moreover have "example_channel \<in> set (channels (example_animation ''SLERP''))"
    by (simp add: example_animation_fields)
  moreover have "read_int (samplers (example_animation ''SLERP'')) (sampler example_channel)
      = Inr (example_sampler ''SLERP'')"
    by (simp add: example_animation_fields example_channel_def read_int_def)
  moreover have "target_node example_channel \<noteq> - 1"
    by (simp add: example_channel_def)
  moreover have "name (nodes (example_model ''SLERP'') ! nat (target_node example_channel))
      \<in> set example_joints"
    by (simp add: example_model_fields example_channel_def example_nodes_def example_node_def
        posed_node_def example_joints_def)
  ultimately show ?thesis
    using find_example [of "''SLERP''"]
      unsupported_channel_fails [of "example_sampler ''SLERP''" example_channel id
        "example_model ''SLERP''" 30 0 empty_track "''A''" "example_animation ''SLERP''"
        example_joints Validate_spec 30 fresh_animation]
    by blast
qed

section \<open>Channels without a target node\<close>

lemma find_map_drop_untargeted:
  "find (\<lambda>a. anim_name a = an) (map drop_untargeted as)
     = map_option drop_untargeted (find (\<lambda>a. anim_name a = an) as)"
  by (induction as) (simp_all add: drop_untargeted_def)

text \<open>
  C9. The channels whose target node is \<open>-1\<close> have no effect on an import: the import of
  a document gives the same animation (keys and duration), or the same failure, as the
  import of the document without those channels.
\<close>

theorem Import_skips_untargeted:
  "Import Validate Normalize (m\<lparr>animations := map drop_untargeted (animations m)\<rparr>)
      animation_name joint_names sampling_rate animation0
     = Import Validate Normalize m animation_name joint_names sampling_rate animation0"
proof (cases "find (\<lambda>a. anim_name a = animation_name) (animations m)")
  case None
  then show ?thesis
    by (simp add: Import_def find_map_drop_untargeted)
next
  case (Some a)
  have "joints_loop Normalize (m\<lparr>animations := map drop_untargeted (animations m)\<rparr>)
      (drop_untargeted a) r cpj joint_names 0 0 trs
     = joints_loop Normalize m a r cpj joint_names 0 0 trs" for r cpj trs
    unfolding drop_untargeted_def by (rule joints_loop_model)
  with Some show ?thesis
    by (simp add: Import_def find_map_drop_untargeted channels_per_joint_filter
        del: channels_per_joint.simps joints_loop.simps)
      (simp add: drop_untargeted_def channels_per_joint_filter)
qed

section \<open>The keyframe count of the step sampler\<close>

text \<open>
  C8. When the output accessor of a STEP channel has \<open>count = 0\<close>, the keyframe count
  \<open>count * 2 - 1\<close> is computed in \<open>size_t\<close> and is \<open>2 ^ 64 - 1\<close>. The sampler has no guard
  for this case: it neither returns \<open>false\<close> nor leaves an empty track, it asks
  \<open>resize\<close> for \<open>2 ^ 64 - 1\<close> keys, which no vector can hold (\<open>std::length_error\<close>).
\<close>

theorem step_numKeyframes_wraps:
  assumes "count out = 0" and "BufferView T out = Some vs"
  shows "unat (step_numKeyframes (count out)) = 2 ^ 64 - 1
     \<and> SampleStepChannel T out timestamps keyframes = Inl LengthError"
proof -
  have n: "unat (step_numKeyframes (count out)) = 2 ^ 64 - 1"
    using assms(1)
    by (simp add: step_numKeyframes_def unsigned_minus_1_eq_mask mask_eq_exp_minus_1)
  moreover have "resize (2 ^ 64 - 1) (new_key T) keyframes = Inl LengthError"
    by (simp add: resize_def max_size_def)
  ultimately show ?thesis
    using assms(2) by (simp add: SampleStepChannel_def)
qed

theorem step_numKeyframes_wraps_witness:
  "unat (step_numKeyframes
      (count \<lparr>count = 0, componentType = 5126, acc_type = 3, maxValues = [], floats = []\<rparr>))
     = 2 ^ 64 - 1
   \<and> SampleStepChannel Float3
       \<lparr>count = 0, componentType = 5126, acc_type = 3, maxValues = [], floats = []\<rparr> [] []
     = Inl LengthError"
proof -
  have "BufferView Float3
      \<lparr>count = 0, componentType = 5126, acc_type = 3, maxValues = [], floats = []\<rparr> = Some []"
    by (simp add: BufferView_def element_size_def GetComponentSizeInBytes_def
        GetTypeSizeInBytes_def TINYGLTF_TYPE_SCALAR_def TINYGLTF_TYPE_VEC2_def
        TINYGLTF_TYPE_VEC3_def Float3_def chunks_def)
  then show ?thesis
    using step_numKeyframes_wraps
      [of "\<lparr>count = 0, componentType = 5126, acc_type = 3, maxValues = [], floats = []\<rparr>"
          Float3 "[]" "[]" "[]"]
    by simp
qed

section \<open>The automatic sampling rate\<close>

text \<open>
  C10. An animation import called with the sampling rate 0 gives exactly what the import
  called with the sampling rate 30 gives: the same animation, or the same failure.
\<close>

theorem Import_rate_0_is_30:
  "Import Validate Normalize m animation_name joint_names 0 animation0
     = Import Validate Normalize m animation_name joint_names 30 animation0"
  by (simp add: Import_def)

section \<open>The root of a skin\<close>

lemma fold_parents:
  "fold (\<lambda>child ps. ps(child \<mapsto> n)) cs parents c = (if c \<in> set cs then Some n else parents c)"
  by (induction cs arbitrary: parents) auto

text \<open>An entry of the map is an entry it had before or a child link from a joint, and
  every child of a joint has an entry.\<close>

lemma build_parents_Some:
  assumes "build_parents ns js acc = Inr parents" and "parents c = Some p"
  shows "acc c = Some p \<or> (p \<in> set js \<and> 0 \<le> p \<and> nat p < length ns \<and> c \<in> set (children (ns ! nat p)))"
  using assms
proof (induction js arbitrary: acc)
  case Nil
  then show ?case by simp
next
  case (Cons n js)
  from Cons.prems(1) obtain nd where nd: "read_int ns n = Inr nd"
    and rest: "build_parents ns js (fold (\<lambda>child ps. ps(child \<mapsto> n)) (children nd) acc) = Inr parents"
    by (auto split: sum.splits)
  from nd have n: "0 \<le> n" "nat n < length ns" "nd = ns ! nat n"
    by (auto dest: read_int_Inr)
  from Cons.IH [OF rest Cons.prems(2)] n show ?case
    by (auto simp add: fold_parents split: if_splits)
qed

lemma build_parents_dom:
  assumes "build_parents ns js acc = Inr parents"
    and "acc c \<noteq> None \<or> (\<exists>p\<in>set js. c \<in> set (children (ns ! nat p)))"
  shows "parents c \<noteq> None"
  using assms
proof (induction js arbitrary: acc)
  case Nil
  then show ?case by simp
next
  case (Cons n js)
  from Cons.prems(1) obtain nd where nd: "read_int ns n = Inr nd"
    and rest: "build_parents ns js (fold (\<lambda>child ps. ps(child \<mapsto> n)) (children nd) acc) = Inr parents"
    by (auto split: sum.splits)
  from nd have n: "nd = ns ! nat n"
    by (auto dest: read_int_Inr)
  show ?case
  proof (rule Cons.IH [OF rest])
    from Cons.prems(2) n
    show "fold (\<lambda>child ps. ps(child \<mapsto> n)) (children nd) acc c \<noteq> None
        \<or> (\<exists>p\<in>set js. c \<in> set (children (ns ! nat p)))"
      by (auto simp add: fold_parents)
  qed
qed

lemma build_parents_total:
  assumes "\<forall>j\<in>set js. 0 \<le> j \<and> nat j < length ns"
  shows "\<exists>parents. build_parents ns js acc = Inr parents"
  using assms by (induction js arbitrary: acc) (auto simp add: read_int_def)

text \<open>In a tree the walk up the parents from a joint ends, at the root.\<close>

lemma walk_parents_reach:
  assumes "reach ns J r j" and "j \<in> J" and "skin_tree ns J r"
    and "build_parents ns js Map.empty = Inr parents" and "set js = J"
  shows "walk_parents parents j = Some r"
  using assms(1,2)
proof (induction rule: reach.induct)
  case reach_root
  have "parents r = None"
  proof (cases "parents r")
    case (Some p)
    with build_parents_Some [OF assms(4), of r p] assms(3,5) show ?thesis
      by (auto simp add: skin_tree_def)
  qed simp
  then show ?case
    by (subst walk_parents.simps) simp
next
  case (reach_child p c)
  from build_parents_dom [OF assms(4), of c] reach_child.hyps(2,4) assms(5)
  obtain q where q: "parents c = Some q"
    by auto
  with build_parents_Some [OF assms(4), of c q] assms(5)
  have "q \<in> J" "c \<in> set (children (ns ! nat q))"
    by auto
  with reach_child.hyps(2,3,4) assms(3) have "q = p"
    unfolding skin_tree_def by blast
  with q reach_child.IH [OF reach_child.hyps(2)] show ?case
    by (subst walk_parents.simps) simp
qed

lemma FindSkinRootJointIndex_tree:
  assumes "skin_tree ns (set js) r" and "js \<noteq> []"
  shows "FindSkinRootJointIndex ns \<lparr>joints = js, skeleton = - 1\<rparr> = Some (Inr r)"
proof -
  from assms(1) have valid: "\<forall>j\<in>set js. 0 \<le> j \<and> nat j < length ns"
    by (simp add: skin_tree_def)
  then obtain parents where parents: "build_parents ns js Map.empty = Inr parents"
    using build_parents_total by blast
  from assms(2) have first: "js ! 0 \<in> set js"
    by simp
  with assms(1) have "reach ns (set js) r (js ! 0)"
    by (simp add: skin_tree_def)
  from this first assms(1) parents have "walk_parents parents (js ! 0) = Some r"
    by (rule walk_parents_reach) simp
  with parents assms(2) show ?thesis
    by (simp add: FindSkinRootJointIndex_def)
qed

text \<open>
  C7. For a skin without a declared root whose joints form a tree with the one
  parentless joint \<open>r\<close>, \<open>FindSkinRootJointIndex\<close> returns \<open>r\<close>, and so it does for the
  joints in any other order (for any list with the same elements).
\<close>

theorem FindSkinRootJointIndex_order:
  assumes "skin_tree ns (set js) r" and "js \<noteq> []" and "set js' = set js"
  shows "FindSkinRootJointIndex ns \<lparr>joints = js, skeleton = - 1\<rparr> = Some (Inr r)
     \<and> FindSkinRootJointIndex ns \<lparr>joints = js', skeleton = - 1\<rparr> = Some (Inr r)"
proof
  from assms(1,2) show "FindSkinRootJointIndex ns \<lparr>joints = js, skeleton = - 1\<rparr> = Some (Inr r)"
    by (rule FindSkinRootJointIndex_tree)
  from assms(2,3) have "js' \<noteq> []"
    by auto
  with assms(1,3) show "FindSkinRootJointIndex ns \<lparr>joints = js', skeleton = - 1\<rparr> = Some (Inr r)"
    by (intro FindSkinRootJointIndex_tree) simp_all
qed

lemma example_children:
  "children (example_nodes ! 0) = [1]" "children (example_nodes ! 1) = [2]"
  "children (example_nodes ! 2) = []" "length example_nodes = 3"
  "children (example_nodes ! Suc 0) = [2]"
  by (simp_all add: example_nodes_def example_node_def posed_node_def)

lemma skin_tree_example: "skin_tree example_nodes (set [0, 1, 2]) 0"
proof -
  let ?J = "set [0, 1, 2 :: int]"
  have r0: "reach example_nodes ?J 0 0"
    by (rule reach_root)
  from r0 have r1: "reach example_nodes ?J 0 1"
    by (rule reach_child) (simp_all add: example_children)
  from r1 have r2: "reach example_nodes ?J 0 2"
    by (rule reach_child) (simp_all add: example_children)
  from r0 r1 r2 show ?thesis
    by (simp add: skin_tree_def example_children)
qed

theorem FindSkinRootJointIndex_order_witness:
  "skin_tree example_nodes (set [0, 1, 2]) 0
   \<and> FindSkinRootJointIndex example_nodes \<lparr>joints = [0, 1, 2], skeleton = - 1\<rparr> = Some (Inr 0)
   \<and> FindSkinRootJointIndex example_nodes \<lparr>joints = [2, 0, 1], skeleton = - 1\<rparr> = Some (Inr 0)
   \<and> FindSkinRootJointIndex example_nodes \<lparr>joints = [1, 2, 0], skeleton = - 1\<rparr> = Some (Inr 0)"
proof -
  have "set [2, 0, 1] = set [0, 1, 2 :: int]" "set [1, 2, 0] = set [0, 1, 2 :: int]"
    by auto
  with skin_tree_example
    FindSkinRootJointIndex_order [of example_nodes "[0, 1, 2]" 0 "[2, 0, 1]"]
    FindSkinRootJointIndex_order [of example_nodes "[0, 1, 2]" 0 "[1, 2, 0]"]
  show ?thesis
    by simp
qed

section \<open>The recursion of \<open>ImportNode\<close>\<close>

lemma ImportNodes_Nil: "ImportNodes ns [] = Some (Inr [])"
  by (subst ImportNodes.simps) simp

lemma ImportNodes_Cons:
  "ImportNodes ns (c # rest) =
     (case read_int ns c of
        Inl e \<Rightarrow> Some (Inl e)
      | Inr child_node \<Rightarrow>
          (case CreateNodeTransform child_node of
             Inl e \<Rightarrow> Some (Inl e)
           | Inr tr \<Rightarrow>
               Option.bind (ImportNodes ns (children child_node)) (\<lambda>r.
                 case r of
                   Inl e \<Rightarrow> Some (Inl e)
                 | Inr js \<Rightarrow>
                     Option.bind (ImportNodes ns rest) (\<lambda>r'.
                       case r' of
                         Inl e \<Rightarrow> Some (Inl e)
                       | Inr siblings \<Rightarrow> Some (Inr (Joint (name child_node) tr js # siblings))))))"
  by (subst ImportNodes.simps) simp

lemma CreateNodeTransform_example_node: "CreateNodeTransform (example_node n cs) = Inr identity"
  by (simp add: CreateNodeTransform_def example_node_def)

lemma children_example: "children (example_node n cs) = cs" "children (posed_node n cs) = cs"
  "name (example_node n cs) = n" "name (posed_node n cs) = n"
  by (simp_all add: example_node_def posed_node_def)

text \<open>On a node that is its own child the recursion never returns.\<close>

lemma ImportNodes_cyclic: "ImportNodes ns cs = Some y \<Longrightarrow> \<not> (ns = cyclic_nodes \<and> cs = [0])"
proof (induction rule: ImportNodes.raw_induct [rotated 1, consumes 1])
  case (1 f ns cs y)
  show ?case
  proof
    assume c: "ns = cyclic_nodes \<and> cs = [0]"
    then have rd: "read_int ns 0 = Inr (example_node ''loop'' [0])"
      by (simp add: cyclic_nodes_def read_int_def)
    from 1(2) c rd obtain r where r: "f ns [0] = Some r"
      by (auto simp add: CreateNodeTransform_example_node children_example
          split: Option.bind_splits)
    have "\<not> (ns = cyclic_nodes \<and> [0 :: int] = [0])"
      using r by (rule 1(1))
    with c show False
      by simp
  qed
qed

text \<open>Below nodes without a cycle it returns: by induction on the rank, and on the list of
  children.\<close>

lemma ImportNodes_returns:
  assumes "acyclic_below ns S rank"
  shows "\<forall>c\<in>set cs. c \<in> S \<and> rank c < k \<Longrightarrow> \<exists>r. ImportNodes ns cs = Some r"
proof (induction k arbitrary: cs)
  case 0
  then have "cs = []"
    by (cases cs) auto
  then show ?case
    by (simp add: ImportNodes_Nil)
next
  case (Suc k)
  from Suc.prems show ?case
  proof (induction cs)
    case Nil
    then show ?case
      by (simp add: ImportNodes_Nil)
  next
    case (Cons c rest)
    from Cons obtain r' where rest: "ImportNodes ns rest = Some r'"
      by auto
    show ?case
    proof (cases "read_int ns c")
      case (Inl e)
      then show ?thesis
        by (simp add: ImportNodes_Cons)
    next
      case (Inr nd)
      then have c: "0 \<le> c" "nat c < length ns" "nd = ns ! nat c"
        by (auto dest: read_int_Inr)
      from Cons.prems have "c \<in> S" "rank c < Suc k"
        by simp_all
      with assms c have "\<forall>c'\<in>set (children nd). c' \<in> S \<and> rank c' < k"
        unfolding acyclic_below_def by fastforce
      then obtain r where r: "ImportNodes ns (children nd) = Some r"
        using Suc.IH by blast
      show ?thesis
        by (simp add: ImportNodes_Cons Inr r rest split: sum.splits)
    qed
  qed
qed

section \<open>Cycles in the node graph\<close>

text \<open>
  C2 does not hold as stated: \<open>ImportNode\<close> has no guard against cycles. What holds: when
  no cycle can be reached from the root (the nodes below the root can be ranked so that
  the rank falls along every child link), the construction of the skeleton returns, with
  the joint or with a failure.
\<close>

theorem ImportNode_returns:
  assumes "acyclic_below ns S rank" and "root' \<in> S"
  shows "\<exists>r. ImportNode ns root' = Some r"
proof -
  from assms(2) have "\<forall>c\<in>set [root']. c \<in> S \<and> rank c < Suc (rank root')"
    by simp
  with assms(1) have "\<exists>r. ImportNodes ns [root'] = Some r"
    by (rule ImportNodes_returns)
  then show ?thesis
    by (auto simp add: ImportNode_def)
qed

lemma CreateNodeTransform_posed_node:
  "CreateNodeTransform (posed_node n cs)
     = Inr \<lparr>tr_translation = [13421773 / 134217728, 2, 3], tr_rotation = [0, 1, 0, 0],
            tr_scale = [2, 2, 2]\<rparr>"
proof -
  have "f32 (1 / 10) = Inr (13421773 / 134217728)"
    by (simp add: f32_def round_to_ulp_tenth)
  then show ?thesis
    by (simp add: CreateNodeTransform_def posed_node_def identity_def)
qed

lemma example_nodes_read:
  "read_int example_nodes 0 = Inr (posed_node ''J0'' [1])"
  "read_int example_nodes 1 = Inr (example_node ''J1'' [2])"
  "read_int example_nodes 2 = Inr (example_node ''J2'' [])"
  by (simp_all add: example_nodes_def read_int_def)

lemma ImportNodes_example:
  "ImportNodes example_nodes [0]
     = Some (Inr [Joint ''J0''
         \<lparr>tr_translation = [13421773 / 134217728, 2, 3], tr_rotation = [0, 1, 0, 0],
          tr_scale = [2, 2, 2]\<rparr>
         [Joint ''J1'' identity [Joint ''J2'' identity []]]])"
proof -
  have 2: "ImportNodes example_nodes [2] = Some (Inr [Joint ''J2'' identity []])"
    by (simp add: ImportNodes_Cons ImportNodes_Nil example_nodes_read children_example
        CreateNodeTransform_example_node)
  then have 1: "ImportNodes example_nodes [1]
      = Some (Inr [Joint ''J1'' identity [Joint ''J2'' identity []]])"
    by (simp add: ImportNodes_Cons ImportNodes_Nil example_nodes_read children_example
        CreateNodeTransform_example_node)
  then show ?thesis
    by (simp add: ImportNodes_Cons ImportNodes_Nil example_nodes_read children_example
        CreateNodeTransform_posed_node)
qed

theorem ImportNode_returns_witness:
  "acyclic_below example_nodes (set [0, 1, 2]) (\<lambda>n. nat (3 - n))
   \<and> ImportNode example_nodes 0
       = Some (Inr (Joint ''J0''
           \<lparr>tr_translation = [13421773 / 134217728, 2, 3], tr_rotation = [0, 1, 0, 0],
            tr_scale = [2, 2, 2]\<rparr>
           [Joint ''J1'' identity [Joint ''J2'' identity []]]))"
proof -
  have a: "acyclic_below example_nodes (set [0, 1, 2]) (\<lambda>n. nat (3 - n))"
    by (simp add: acyclic_below_def example_children)
  have "(0 :: int) \<in> set [0, 1, 2]"
    by simp
  with a have "\<exists>r. ImportNode example_nodes 0 = Some r"
    by (rule ImportNode_returns)
  with a show ?thesis
    by (simp add: ImportNode_def ImportNodes_example)
qed

theorem ImportNode_cycle_counterexample:
  "ImportNode cyclic_nodes 0 = None
   \<and> ImportNode [example_node ''loop'' []] 0 = Some (Inr (Joint ''loop'' identity []))"
proof
  have "ImportNodes cyclic_nodes [0] = None"
    using ImportNodes_cyclic [of cyclic_nodes "[0]"] by (cases "ImportNodes cyclic_nodes [0]") auto
  then show "ImportNode cyclic_nodes 0 = None"
    by (simp add: ImportNode_def)
  show "ImportNode [example_node ''loop'' []] 0 = Some (Inr (Joint ''loop'' identity []))"
    by (simp add: ImportNode_def ImportNodes_Cons ImportNodes_Nil read_int_def children_example
        CreateNodeTransform_example_node)
qed

end
